theory Spec2Isabelle
  imports Main "HOL-Library.Word"
begin

unbundle bit_operations_syntax

section \<open>The I2C manager of CommandStation-EX (I2CManager.cpp)\<close>

text \<open>
  The theory embeds the functions of \<^verbatim>\<open>I2CManager.cpp\<close>: the helper functions of the
  request block \<^verbatim>\<open>I2CRB\<close> and the platform-independent member functions of
  \<^verbatim>\<open>I2CManagerClass\<close>. The header \<^verbatim>\<open>I2CManager.h\<close> and the platform-specific
  files included at the top of \<^verbatim>\<open>I2CManager.cpp\<close> are outside this theory.
  What they declare and \<^verbatim>\<open>I2CManager.cpp\<close> uses is taken as a parameter:
  the numeric values of the enumerators as a record \<open>enums\<close>, the platform-specific
  member functions as a record \<open>driver\<close>.
\<close>

subsection \<open>Enumerators of I2CManager.h\<close>

type_synonym uint8_t = "8 word"
type_synonym uint32_t = "32 word"

text \<open>
  The status codes \<^verbatim>\<open>I2C_STATUS_*\<close> and the operation codes \<^verbatim>\<open>OPERATION_*\<close>
  that \<^verbatim>\<open>I2CManager.cpp\<close> names. All are \<^verbatim>\<open>uint8_t\<close> values. Their numeric
  values are a parameter of every definition that uses one.
\<close>

record enums =
  I2C_STATUS_OK :: uint8_t
  I2C_STATUS_TRUNCATED :: uint8_t
  I2C_STATUS_NEGATIVE_ACKNOWLEDGE :: uint8_t
  I2C_STATUS_TRANSMIT_ERROR :: uint8_t
  I2C_STATUS_OTHER_TWI_ERROR :: uint8_t
  I2C_STATUS_TIMEOUT :: uint8_t
  I2C_STATUS_ARBITRATION_LOST :: uint8_t
  I2C_STATUS_BUS_ERROR :: uint8_t
  I2C_STATUS_UNEXPECTED_ERROR :: uint8_t
  I2C_STATUS_PENDING :: uint8_t
  OPERATION_READ :: uint8_t
  OPERATION_REQUEST :: uint8_t
  OPERATION_SEND :: uint8_t
  OPERATION_NORETRY :: uint8_t

text \<open>
  The ten status codes in the order of the \<^verbatim>\<open>switch\<close> of \<^verbatim>\<open>getErrorMessage\<close>.
  A \<^verbatim>\<open>switch\<close> with two equal case labels does not compile, so the ten values are
  pairwise distinct in every build of the program.
\<close>

definition status_codes :: "enums \<Rightarrow> uint8_t list" where
  "status_codes c =
     [I2C_STATUS_OK c, I2C_STATUS_TRUNCATED c, I2C_STATUS_NEGATIVE_ACKNOWLEDGE c,
      I2C_STATUS_TRANSMIT_ERROR c, I2C_STATUS_OTHER_TWI_ERROR c, I2C_STATUS_TIMEOUT c,
      I2C_STATUS_ARBITRATION_LOST c, I2C_STATUS_BUS_ERROR c,
      I2C_STATUS_UNEXPECTED_ERROR c, I2C_STATUS_PENDING c]"

text \<open>
  The three operation kinds keep clear of the bits of \<^verbatim>\<open>OPERATION_NORETRY\<close>, which is
  ORed into the same byte (``OR with operation to suppress retries'').
\<close>

definition kinds_clear_of_noretry :: "enums \<Rightarrow> bool" where
  "kinds_clear_of_noretry c \<longleftrightarrow>
     OPERATION_READ c AND OPERATION_NORETRY c = 0 \<and>
     OPERATION_REQUEST c AND OPERATION_NORETRY c = 0 \<and>
     OPERATION_SEND c AND OPERATION_NORETRY c = 0"

text \<open>
  One assignment of the enumerators, used to evaluate the definitions: \<^verbatim>\<open>I2C_STATUS_OK\<close>
  is 0 (the comment on \<^verbatim>\<open>checkAddress\<close> says so), the other status codes are distinct
  bytes, the no-retry flag is the top bit of the operation byte.
\<close>

definition sample_enums :: enums where
  "sample_enums =
     \<lparr>I2C_STATUS_OK = 0, I2C_STATUS_TRUNCATED = 1, I2C_STATUS_NEGATIVE_ACKNOWLEDGE = 2,
      I2C_STATUS_TRANSMIT_ERROR = 3, I2C_STATUS_OTHER_TWI_ERROR = 4, I2C_STATUS_TIMEOUT = 5,
      I2C_STATUS_ARBITRATION_LOST = 6, I2C_STATUS_BUS_ERROR = 7,
      I2C_STATUS_UNEXPECTED_ERROR = 8, I2C_STATUS_PENDING = 253,
      OPERATION_READ = 1, OPERATION_REQUEST = 2, OPERATION_SEND = 3,
      OPERATION_NORETRY = 128\<rparr>"

subsection \<open>The request block I2CRB\<close>

text \<open>
  Pointers are addresses; \<open>NULL\<close> is address 0. The record has the data members that
  \<^verbatim>\<open>I2CManager.cpp\<close> reads or assigns; any further member of the class lives in the
  record's extension slot.
\<close>

type_synonym ptr = nat

definition NULL :: ptr where
  "NULL = 0"

record I2CRB =
  status :: uint8_t
  i2cAddress :: uint8_t
  writeBuffer :: ptr
  writeLen :: uint8_t
  readBuffer :: ptr
  readLen :: uint8_t
  operation :: uint8_t

definition setReadParams :: "enums \<Rightarrow> uint8_t \<Rightarrow> ptr \<Rightarrow> uint8_t \<Rightarrow> I2CRB \<Rightarrow> I2CRB" where
  "setReadParams c addr rbuf rlen rb =
     rb\<lparr>i2cAddress := addr,
        writeLen := 0,
        readBuffer := rbuf,
        readLen := rlen,
        operation := OPERATION_READ c,
        status := I2C_STATUS_OK c\<rparr>"

definition setRequestParams ::
  "enums \<Rightarrow> uint8_t \<Rightarrow> ptr \<Rightarrow> uint8_t \<Rightarrow> ptr \<Rightarrow> uint8_t \<Rightarrow> I2CRB \<Rightarrow> I2CRB" where
  "setRequestParams c addr rbuf rlen wbuf wlen rb =
     rb\<lparr>i2cAddress := addr,
        writeBuffer := wbuf,
        writeLen := wlen,
        readBuffer := rbuf,
        readLen := rlen,
        operation := OPERATION_REQUEST c,
        status := I2C_STATUS_OK c\<rparr>"

definition setWriteParams :: "enums \<Rightarrow> uint8_t \<Rightarrow> ptr \<Rightarrow> uint8_t \<Rightarrow> I2CRB \<Rightarrow> I2CRB" where
  "setWriteParams c addr wbuf wlen rb =
     rb\<lparr>i2cAddress := addr,
        writeBuffer := wbuf,
        writeLen := wlen,
        readLen := 0,
        operation := OPERATION_SEND c,
        status := I2C_STATUS_OK c\<rparr>"

definition suppressRetries :: "enums \<Rightarrow> bool \<Rightarrow> I2CRB \<Rightarrow> I2CRB" where
  "suppressRetries c suppress rb =
     (if suppress
      then rb\<lparr>operation := operation rb OR OPERATION_NORETRY c\<rparr>
      else rb\<lparr>operation := operation rb AND NOT (OPERATION_NORETRY c)\<rparr>)"

subsection \<open>getErrorMessage\<close>

text \<open>
  The \<^verbatim>\<open>switch\<close> over the status byte, as a chain of comparisons in the order of its
  case labels; the last branch is its \<^verbatim>\<open>default\<close>.
\<close>

definition getErrorMessage :: "enums \<Rightarrow> uint8_t \<Rightarrow> string" where
  "getErrorMessage c st =
     (if st = I2C_STATUS_OK c then ''OK''
      else if st = I2C_STATUS_TRUNCATED c then ''Transmission truncated''
      else if st = I2C_STATUS_NEGATIVE_ACKNOWLEDGE c
        then ''No response from device (address NAK)''
      else if st = I2C_STATUS_TRANSMIT_ERROR c then ''Transmit error (data NAK)''
      else if st = I2C_STATUS_OTHER_TWI_ERROR c then ''Other Wire/TWI error''
      else if st = I2C_STATUS_TIMEOUT c then ''Timeout''
      else if st = I2C_STATUS_ARBITRATION_LOST c then ''Arbitration lost''
      else if st = I2C_STATUS_BUS_ERROR c then ''I2C bus error''
      else if st = I2C_STATUS_UNEXPECTED_ERROR c then ''Unexpected error''
      else if st = I2C_STATUS_PENDING c then ''Request pending''
      else ''Error code not recognised'')"

text \<open>The message of each case label, in the order of \<open>status_codes\<close>.\<close>

definition status_messages :: "string list" where
  "status_messages =
     [''OK'', ''Transmission truncated'', ''No response from device (address NAK)'',
      ''Transmit error (data NAK)'', ''Other Wire/TWI error'', ''Timeout'',
      ''Arbitration lost'', ''I2C bus error'', ''Unexpected error'', ''Request pending'']"

subsection \<open>The world the manager runs in\<close>

text \<open>
  The manager is a singleton; its data members that \<^verbatim>\<open>I2CManager.cpp\<close> assigns are
  fields of the record \<open>world\<close> (the leading underscore of \<^verbatim>\<open>_beginCompleted\<close>,
  \<^verbatim>\<open>_clockSpeed\<close> and \<^verbatim>\<open>_clockSpeedFixed\<close> is dropped). \<^verbatim>\<open>uint32_t\<close> and
  \<^verbatim>\<open>unsigned long\<close> are 32-bit words.

  The \<open>store\<close> is what the platform-specific code may write: the request blocks by
  address (callers own them, the manager keeps pointers to them), the byte buffers, and
  the platform-specific state \<open>hw\<close> of the manager (queue, state machine, peripheral).

  The \<open>trace\<close> lists, in order, the calls made to the platform-specific code and to the
  diagnostic output.
\<close>

datatype pin = SDA | SCL

datatype event =
    EvInitialise
  | EvSetClock uint32_t
  | EvDigitalRead pin
  | EvDIAG string "uint32_t list"
  | EvSetTimeout uint32_t
  | EvQueueRequest ptr I2CRB
  | EvLoop
  | EvWrite uint8_t ptr uint8_t ptr
  | EvWrite_P uint8_t ptr uint8_t ptr
  | EvRead uint8_t ptr uint8_t ptr uint8_t ptr

record 'b store =
  heap :: "ptr \<Rightarrow> I2CRB"
  mem :: "ptr \<Rightarrow> uint8_t"
  hw :: 'b

record 'b world =
  beginCompleted :: bool
  clockSpeed :: uint32_t
  clockSpeedFixed :: bool
  timeout :: uint32_t
  store :: "'b store"
  trace :: "event list"

definition rb_at :: "'b world \<Rightarrow> ptr \<Rightarrow> I2CRB" where
  "rb_at w p = heap (store w) p"

definition rb_update :: "ptr \<Rightarrow> (I2CRB \<Rightarrow> I2CRB) \<Rightarrow> 'b world \<Rightarrow> 'b world" where
  "rb_update p f w = w\<lparr>store := (store w)\<lparr>heap := (heap (store w))(p := f (heap (store w) p))\<rparr>\<rparr>"

definition mem_store :: "ptr \<Rightarrow> uint8_t \<Rightarrow> 'b world \<Rightarrow> 'b world" where
  "mem_store a v w = w\<lparr>store := (store w)\<lparr>mem := (mem (store w))(a := v)\<rparr>\<rparr>"

text \<open>
  The member functions that \<^verbatim>\<open>I2CManager.cpp\<close> calls and the platform-specific
  files define: \<^verbatim>\<open>_initialise\<close>, \<^verbatim>\<open>_setClock\<close>, \<^verbatim>\<open>queueRequest\<close>,
  \<^verbatim>\<open>loop\<close>, the non-blocking overloads of \<^verbatim>\<open>write\<close>, \<^verbatim>\<open>write_P\<close> and
  \<^verbatim>\<open>read\<close> that take a request block, and Arduino's \<^verbatim>\<open>digitalRead\<close>. Each reads the
  world and returns the store it leaves (and its return value, if \<^verbatim>\<open>I2CManager.cpp\<close>
  uses it). So a driver writes request blocks, buffers and its own state, and not
  \<^verbatim>\<open>_beginCompleted\<close>, \<^verbatim>\<open>_clockSpeed\<close>, \<^verbatim>\<open>_clockSpeedFixed\<close> or
  \<^verbatim>\<open>timeout\<close>: these are assigned by the functions of \<^verbatim>\<open>I2CManager.cpp\<close> and by
  \<^verbatim>\<open>setTimeout\<close> only.

  Each call of a driver function is entered in the trace by the function of the same
  name below, which \<^verbatim>\<open>I2CManager.cpp\<close> is embedded against.
\<close>

record 'b driver =
  drv_initialise :: "'b world \<Rightarrow> 'b store"
  drv_setClock :: "uint32_t \<Rightarrow> 'b world \<Rightarrow> 'b store"
  drv_queueRequest :: "ptr \<Rightarrow> 'b world \<Rightarrow> 'b store"
  drv_loop :: "'b world \<Rightarrow> 'b store"
  drv_digitalRead :: "pin \<Rightarrow> 'b world \<Rightarrow> bool"
  drv_write :: "uint8_t \<Rightarrow> ptr \<Rightarrow> uint8_t \<Rightarrow> ptr \<Rightarrow> 'b world \<Rightarrow> uint8_t \<times> 'b store"
  drv_write_P :: "uint8_t \<Rightarrow> ptr \<Rightarrow> uint8_t \<Rightarrow> ptr \<Rightarrow> 'b world \<Rightarrow> uint8_t \<times> 'b store"
  drv_read ::
    "uint8_t \<Rightarrow> ptr \<Rightarrow> uint8_t \<Rightarrow> ptr \<Rightarrow> uint8_t \<Rightarrow> ptr \<Rightarrow> 'b world \<Rightarrow> uint8_t \<times> 'b store"

definition log_call :: "event \<Rightarrow> 'b world \<Rightarrow> 'b world" where
  "log_call ev w = w\<lparr>trace := trace w @ [ev]\<rparr>"

definition DIAG :: "string \<Rightarrow> uint32_t list \<Rightarrow> 'b world \<Rightarrow> 'b world" where
  "DIAG fmt args w = log_call (EvDIAG fmt args) w"

definition initialise :: "'b driver \<Rightarrow> 'b world \<Rightarrow> 'b world" where
  "initialise d w = log_call EvInitialise (w\<lparr>store := drv_initialise d w\<rparr>)"

definition setClock_hw :: "'b driver \<Rightarrow> uint32_t \<Rightarrow> 'b world \<Rightarrow> 'b world" where
  "setClock_hw d speed w = log_call (EvSetClock speed) (w\<lparr>store := drv_setClock d speed w\<rparr>)"

definition queueRequest :: "'b driver \<Rightarrow> ptr \<Rightarrow> 'b world \<Rightarrow> 'b world" where
  "queueRequest d req w = log_call (EvQueueRequest req (rb_at w req)) (w\<lparr>store := drv_queueRequest d req w\<rparr>)"

definition loop :: "'b driver \<Rightarrow> 'b world \<Rightarrow> 'b world" where
  "loop d w = log_call EvLoop (w\<lparr>store := drv_loop d w\<rparr>)"

definition digitalRead :: "'b driver \<Rightarrow> pin \<Rightarrow> 'b world \<Rightarrow> bool \<times> 'b world" where
  "digitalRead d pn w = (drv_digitalRead d pn w, log_call (EvDigitalRead pn) w)"

definition write_req ::
  "'b driver \<Rightarrow> uint8_t \<Rightarrow> ptr \<Rightarrow> uint8_t \<Rightarrow> ptr \<Rightarrow> 'b world \<Rightarrow> uint8_t \<times> 'b world" where
  "write_req d addr wbuf wlen req w =
     (fst (drv_write d addr wbuf wlen req w),
      log_call (EvWrite addr wbuf wlen req) (w\<lparr>store := snd (drv_write d addr wbuf wlen req w)\<rparr>))"

definition write_P_req ::
  "'b driver \<Rightarrow> uint8_t \<Rightarrow> ptr \<Rightarrow> uint8_t \<Rightarrow> ptr \<Rightarrow> 'b world \<Rightarrow> uint8_t \<times> 'b world" where
  "write_P_req d addr dat dlen req w =
     (fst (drv_write_P d addr dat dlen req w),
      log_call (EvWrite_P addr dat dlen req) (w\<lparr>store := snd (drv_write_P d addr dat dlen req w)\<rparr>))"

definition read_req ::
  "'b driver \<Rightarrow> uint8_t \<Rightarrow> ptr \<Rightarrow> uint8_t \<Rightarrow> ptr \<Rightarrow> uint8_t \<Rightarrow> ptr \<Rightarrow> 'b world
     \<Rightarrow> uint8_t \<times> 'b world" where
  "read_req d addr rbuf rlen wbuf wlen req w =
     (fst (drv_read d addr rbuf rlen wbuf wlen req w),
      log_call (EvRead addr rbuf rlen wbuf wlen req)
        (w\<lparr>store := snd (drv_read d addr rbuf rlen wbuf wlen req w)\<rparr>))"

text \<open>
  Modelled from the spec: \<^verbatim>\<open>setTimeout\<close>, which the platform-specific files define.
  The spec: ``\<^verbatim>\<open>setTimeout(microseconds)\<close>: sets the per-attempt wall-clock budget''.
\<close>

definition setTimeout :: "uint32_t \<Rightarrow> 'b world \<Rightarrow> 'b world" where
  "setTimeout v w = log_call (EvSetTimeout v) (w\<lparr>timeout := v\<rparr>)"

subsection \<open>Clock speed\<close>

definition setClock :: "'b driver \<Rightarrow> uint32_t \<Rightarrow> 'b world \<Rightarrow> 'b world" where
  "setClock d speed w =
     (let w1 = (if speed < clockSpeed w \<and> \<not> clockSpeedFixed w
                then DIAG ''I2C clock speed set to %l Hz'' [speed] (w\<lparr>clockSpeed := speed\<rparr>)
                else w)
      in setClock_hw d (clockSpeed w1) w1)"

definition forceClock :: "'b driver \<Rightarrow> uint32_t \<Rightarrow> 'b world \<Rightarrow> 'b world" where
  "forceClock d speed w =
     (let w1 = w\<lparr>clockSpeed := speed\<rparr>;
          w2 = w1\<lparr>clockSpeedFixed := True\<rparr>;
          w3 = setClock_hw d (clockSpeed w2) w2
      in DIAG ''I2C clock speed forced to %l Hz'' [clockSpeed w3] w3)"

subsection \<open>Waiting for a request block\<close>

text \<open>
  \<^verbatim>\<open>I2CRB::wait\<close> loops while the block is pending. The loop ends only if
  \<^verbatim>\<open>loop()\<close> takes the block out of \<^verbatim>\<open>I2C_STATUS_PENDING\<close>; \<open>None\<close> is the call
  that never returns. \<open>req\<close> is the address of the block (\<^verbatim>\<open>this\<close>).
\<close>

partial_function (option) wait ::
  "enums \<Rightarrow> 'b driver \<Rightarrow> ptr \<Rightarrow> 'b world \<Rightarrow> (uint8_t \<times> 'b world) option" where
  "wait c d req w =
     (if status (rb_at w req) = I2C_STATUS_PENDING c
      then wait c d req (loop d w)
      else Some (status (rb_at w req), w))"

declare wait.simps [code]

definition isBusy :: "enums \<Rightarrow> 'b driver \<Rightarrow> ptr \<Rightarrow> 'b world \<Rightarrow> bool \<times> 'b world" where
  "isBusy c d req w =
     (if status (rb_at w req) = I2C_STATUS_PENDING c
      then (True, loop d w)
      else (False, w))"

subsection \<open>Probing an address\<close>

text \<open>\<open>rb\<close> is the address of the local request block of \<^verbatim>\<open>checkAddress\<close>.\<close>

definition checkAddress ::
  "enums \<Rightarrow> 'b driver \<Rightarrow> ptr \<Rightarrow> uint8_t \<Rightarrow> 'b world \<Rightarrow> (uint8_t \<times> 'b world) option" where
  "checkAddress c d rb address w =
     (let w1 = rb_update rb (setWriteParams c address NULL 0) w;
          w2 = rb_update rb (suppressRetries c True) w1;
          w3 = queueRequest d rb w2
      in wait c d rb w3)"

text \<open>
  Modelled from the spec: \<^verbatim>\<open>exists\<close>, which \<^verbatim>\<open>begin\<close> calls for each address and
  \<^verbatim>\<open>I2CManager.h\<close> defines. The spec has the scan probe each address with ``a short
  timeout and retries disabled'', and \<^verbatim>\<open>checkAddress\<close> as the ``minimal "is anything
  there" probe'': \<open>exists\<close> is the probe \<^verbatim>\<open>checkAddress\<close>, and a device exists where
  the probe returns \<^verbatim>\<open>I2C_STATUS_OK\<close>.
\<close>

definition exists_dev ::
  "enums \<Rightarrow> 'b driver \<Rightarrow> ptr \<Rightarrow> uint8_t \<Rightarrow> 'b world \<Rightarrow> (bool \<times> 'b world) option" where
  "exists_dev c d rb address w =
     (case checkAddress c d rb address w of
        None \<Rightarrow> None
      | Some (st, w1) \<Rightarrow> Some (st = I2C_STATUS_OK c, w1))"

subsection \<open>begin\<close>

text \<open>
  The \<^verbatim>\<open>for\<close> loop of \<^verbatim>\<open>begin\<close> over \<^verbatim>\<open>byte addr\<close>, entered with \<open>addr = 1\<close>
  and \<open>found = False\<close>.
\<close>

function scan ::
  "enums \<Rightarrow> 'b driver \<Rightarrow> ptr \<Rightarrow> uint8_t \<Rightarrow> bool \<Rightarrow> 'b world \<Rightarrow> (bool \<times> 'b world) option" where
  "scan c d rb addr found w =
     (if addr < 127
      then (case exists_dev c d rb addr w of
              None \<Rightarrow> None
            | Some (ex, w1) \<Rightarrow>
                if ex
                then scan c d rb (addr + 1) True
                       (DIAG ''I2C Device found at x%x'' [ucast addr] w1)
                else scan c d rb (addr + 1) found w1)
      else Some (found, w))"
  by pat_completeness auto
termination
proof (relation "measure (\<lambda>(c, d, rb, addr, found, w). 127 - unat addr)")
  show "wf (measure (\<lambda>(c :: enums, d :: 'b driver, rb :: ptr, addr :: uint8_t,
                       found :: bool, w :: 'b world). 127 - unat addr))"
    by simp
next
  fix c :: enums and d :: "'b driver" and rb :: ptr and addr :: uint8_t
    and found :: bool and w :: "'b world" and x2 ex w1
  assume "addr < 127"
  then have "unat addr < 127" "unat (addr + 1) = unat addr + 1"
    by (simp_all add: word_less_nat_alt unat_word_ariths)
  then show "((c, d, rb, addr + 1, True, DIAG ''I2C Device found at x%x'' [ucast addr] w1),
               (c, d, rb, addr, found, w))
             \<in> measure (\<lambda>(c, d, rb, addr, found, w). 127 - unat addr)"
    and "((c, d, rb, addr + 1, found, w1), (c, d, rb, addr, found, w))
             \<in> measure (\<lambda>(c, d, rb, addr, found, w). 127 - unat addr)"
    by simp_all
qed

declare scan.simps [simp del]

text \<open>
  \<^verbatim>\<open>begin\<close> (\<open>begin\<close> is a keyword of Isabelle). \<open>rb\<close> is the address of the local
  request block of the probes.
\<close>

definition I2C_begin :: "enums \<Rightarrow> 'b driver \<Rightarrow> ptr \<Rightarrow> 'b world \<Rightarrow> 'b world option" where
  "I2C_begin c d rb w =
     (if \<not> beginCompleted w
      then
        (let w1 = w\<lparr>beginCompleted := True\<rparr>;
             w2 = initialise d w1;
             (sda, w3) = digitalRead d SDA w2;
             w4 = (if \<not> sda
                   then DIAG ''WARNING: Possible short-circuit on I2C SDA line'' [] w3
                   else w3);
             (scl, w5) = digitalRead d SCL w4;
             w6 = (if \<not> scl
                   then DIAG ''WARNING: Possible short-circuit on I2C SCL line'' [] w5
                   else w5);
             w7 = setClock_hw d 100000 w6;
             originalTimeout = timeout w7;
             w8 = setTimeout 1000 w7
         in case scan c d rb 1 False w8 of
              None \<Rightarrow> None
            | Some (found, w9) \<Rightarrow>
                (let w10 = (if \<not> found then DIAG ''No I2C Devices found'' [] w9 else w9);
                     w11 = setClock_hw d (clockSpeed w10) w10
                 in Some (setTimeout originalTimeout w11)))
      else Some w)"

subsection \<open>Blocking calls\<close>

definition finishRB ::
  "enums \<Rightarrow> 'b driver \<Rightarrow> ptr \<Rightarrow> uint8_t \<Rightarrow> 'b world \<Rightarrow> (uint8_t \<times> 'b world) option" where
  "finishRB c d rb st w =
     (if st = I2C_STATUS_OK c \<and> rb \<noteq> NULL then wait c d rb w else Some (st, w))"

text \<open>
  The blocking \<^verbatim>\<open>write\<close>, \<^verbatim>\<open>write_P\<close> and \<^verbatim>\<open>read\<close> (\<open>write\<close> is a keyword of
  Isabelle). \<open>req\<close> is the address of the local request block.
\<close>

definition I2C_write ::
  "enums \<Rightarrow> 'b driver \<Rightarrow> ptr \<Rightarrow> uint8_t \<Rightarrow> ptr \<Rightarrow> uint8_t \<Rightarrow> 'b world
     \<Rightarrow> (uint8_t \<times> 'b world) option" where
  "I2C_write c d req i2cAddr wbuf wlen w =
     (let (st, w1) = write_req d i2cAddr wbuf wlen req w
      in finishRB c d req st w1)"

definition I2C_write_P ::
  "enums \<Rightarrow> 'b driver \<Rightarrow> ptr \<Rightarrow> uint8_t \<Rightarrow> ptr \<Rightarrow> uint8_t \<Rightarrow> 'b world
     \<Rightarrow> (uint8_t \<times> 'b world) option" where
  "I2C_write_P c d req i2cAddr dat dlen w =
     (let (st, w1) = write_P_req d i2cAddr dat dlen req w
      in finishRB c d req st w1)"

definition I2C_read ::
  "enums \<Rightarrow> 'b driver \<Rightarrow> ptr \<Rightarrow> uint8_t \<Rightarrow> ptr \<Rightarrow> uint8_t \<Rightarrow> ptr \<Rightarrow> uint8_t \<Rightarrow> 'b world
     \<Rightarrow> (uint8_t \<times> 'b world) option" where
  "I2C_read c d req i2cAddr rbuf rlen wbuf wlen w =
     (let (st, w1) = read_req d i2cAddr rbuf rlen wbuf wlen req w
      in finishRB c d req st w1)"

text \<open>
  The loop that copies the variable arguments into the local array \<open>buffer\<close>:
  \<^verbatim>\<open>for (uint8_t i=0; i<n; i++) buffer[i] = va_arg(args, int);\<close>
  The arguments are the list of the \<^verbatim>\<open>int\<close> values the caller passed; each is
  converted to \<^verbatim>\<open>uint8_t\<close>. Reading an argument that was not passed is undefined
  behaviour in C: \<open>None\<close>.
\<close>

fun va_copy :: "ptr \<Rightarrow> uint8_t \<Rightarrow> uint8_t \<Rightarrow> int list \<Rightarrow> 'b world \<Rightarrow> 'b world option" where
  "va_copy buffer n i args w =
     (if i < n
      then (case args of
              [] \<Rightarrow> None
            | x # xs \<Rightarrow>
                va_copy buffer n (i + 1) xs (mem_store (buffer + unat i) (word_of_int x) w))
      else Some w)"

text \<open>
  The overloads of \<^verbatim>\<open>write\<close> and \<^verbatim>\<open>read\<close> that take the bytes to send as variable
  arguments; \<open>buffer\<close> and \<open>wbuf\<close> are the addresses of the local arrays.
  \<open>None\<close>: the call returns no status (\<open>wait\<close> never ends, or the caller
  passed fewer arguments than the count says).
\<close>

definition I2C_write_va ::
  "enums \<Rightarrow> 'b driver \<Rightarrow> ptr \<Rightarrow> ptr \<Rightarrow> uint8_t \<Rightarrow> uint8_t \<Rightarrow> int list \<Rightarrow> 'b world
     \<Rightarrow> (uint8_t \<times> 'b world) option" where
  "I2C_write_va c d req buffer address nBytes args w =
     (case va_copy buffer nBytes 0 args w of
        None \<Rightarrow> None
      | Some w1 \<Rightarrow> I2C_write c d req address buffer nBytes w1)"

definition I2C_read_va ::
  "enums \<Rightarrow> 'b driver \<Rightarrow> ptr \<Rightarrow> ptr \<Rightarrow> uint8_t \<Rightarrow> ptr \<Rightarrow> uint8_t \<Rightarrow> uint8_t \<Rightarrow> int list
     \<Rightarrow> 'b world \<Rightarrow> (uint8_t \<times> 'b world) option" where
  "I2C_read_va c d req wbuf address rbuf readSize writeSize args w =
     (case va_copy wbuf writeSize 0 args w of
        None \<Rightarrow> None
      | Some w1 \<Rightarrow> I2C_read c d req address rbuf readSize wbuf writeSize w1)"

subsection \<open>What the platform-specific code is taken to guarantee\<close>

text \<open>
  Modelled from the spec: \<^verbatim>\<open>queueRequest\<close>, \<^verbatim>\<open>loop\<close> and the non-blocking overloads
  of \<^verbatim>\<open>write\<close>, \<^verbatim>\<open>write_P\<close> and \<^verbatim>\<open>read\<close>, which the platform-specific files
  define. The spec: ``a request can only terminate via completion, exhausted retries, or
  timeout'', and \<^verbatim>\<open>loop()\<close> finalizes the active request when its deadline is
  exceeded. So a block that was queued, or whose submission returned
  \<^verbatim>\<open>I2C_STATUS_OK\<close>, leaves \<^verbatim>\<open>I2C_STATUS_PENDING\<close> after finitely many calls of
  \<^verbatim>\<open>loop()\<close>: \<open>wait\<close> on it returns.
\<close>

definition completes_requests :: "enums \<Rightarrow> 'b driver \<Rightarrow> bool" where
  "completes_requests c d \<longleftrightarrow>
     (\<forall>req w. wait c d req (queueRequest d req w) \<noteq> None) \<and>
     (\<forall>addr wbuf wlen req w.
        fst (write_req d addr wbuf wlen req w) = I2C_STATUS_OK c \<longrightarrow>
        wait c d req (snd (write_req d addr wbuf wlen req w)) \<noteq> None) \<and>
     (\<forall>addr dat dlen req w.
        fst (write_P_req d addr dat dlen req w) = I2C_STATUS_OK c \<longrightarrow>
        wait c d req (snd (write_P_req d addr dat dlen req w)) \<noteq> None) \<and>
     (\<forall>addr rbuf rlen wbuf wlen req w.
        fst (read_req d addr rbuf rlen wbuf wlen req w) = I2C_STATUS_OK c \<longrightarrow>
        wait c d req (snd (read_req d addr rbuf rlen wbuf wlen req w)) \<noteq> None)"

text \<open>
  Modelled from the spec: the non-blocking overloads of \<^verbatim>\<open>write\<close>, \<^verbatim>\<open>write_P\<close> and
  \<^verbatim>\<open>read\<close>, which the platform-specific files define. The spec: a submission that
  fails for ``queue full, invalid parameters'' is ``rejected synchronously at
  submission, never enters PENDING''. So a submission that returns a code other than
  \<^verbatim>\<open>I2C_STATUS_OK\<close> leaves the block in a status other than \<^verbatim>\<open>I2C_STATUS_PENDING\<close>.
\<close>

definition rejects_synchronously :: "enums \<Rightarrow> 'b driver \<Rightarrow> bool" where
  "rejects_synchronously c d \<longleftrightarrow>
     (\<forall>addr wbuf wlen req w.
        fst (write_req d addr wbuf wlen req w) \<noteq> I2C_STATUS_OK c \<longrightarrow>
        status (rb_at (snd (write_req d addr wbuf wlen req w)) req) \<noteq> I2C_STATUS_PENDING c) \<and>
     (\<forall>addr dat dlen req w.
        fst (write_P_req d addr dat dlen req w) \<noteq> I2C_STATUS_OK c \<longrightarrow>
        status (rb_at (snd (write_P_req d addr dat dlen req w)) req) \<noteq> I2C_STATUS_PENDING c) \<and>
     (\<forall>addr rbuf rlen wbuf wlen req w.
        fst (read_req d addr rbuf rlen wbuf wlen req w) \<noteq> I2C_STATUS_OK c \<longrightarrow>
        status (rb_at (snd (read_req d addr rbuf rlen wbuf wlen req w)) req)
          \<noteq> I2C_STATUS_PENDING c)"

subsection \<open>A driver and a world to evaluate the definitions on\<close>

text \<open>
  A bus with no device on it, under \<open>sample_enums\<close>: a queued block is pending
  (253) until the next \<^verbatim>\<open>loop()\<close>, which ends every pending block with
  \<^verbatim>\<open>I2C_STATUS_NEGATIVE_ACKNOWLEDGE\<close> (2). The non-blocking overloads fill the block in
  and queue it; they reject an address that does not fit 7 bits with code 8, which they
  also store in the block. Both bus lines read high.
\<close>

definition fill_block :: "ptr \<Rightarrow> (I2CRB \<Rightarrow> I2CRB) \<Rightarrow> uint8_t \<Rightarrow> 'b store \<Rightarrow> 'b store" where
  "fill_block req f st s = s\<lparr>heap := (heap s)(req := (f (heap s req))\<lparr>status := st\<rparr>)\<rparr>"

definition nak_pending :: "'b store \<Rightarrow> 'b store" where
  "nak_pending s =
     s\<lparr>heap := (\<lambda>q. if status (heap s q) = 253 then (heap s q)\<lparr>status := 2\<rparr> else heap s q)\<rparr>"

definition sample_driver :: "unit driver" where
  "sample_driver =
     \<lparr>drv_initialise = store,
      drv_setClock = (\<lambda>speed. store),
      drv_queueRequest = (\<lambda>req w. fill_block req (\<lambda>rb. rb) 253 (store w)),
      drv_loop = (\<lambda>w. nak_pending (store w)),
      drv_digitalRead = (\<lambda>pn w. True),
      drv_write = (\<lambda>addr wbuf wlen req w.
         if addr < 128
         then (0, fill_block req (setWriteParams sample_enums addr wbuf wlen) 253 (store w))
         else (8, fill_block req (\<lambda>rb. rb) 8 (store w))),
      drv_write_P = (\<lambda>addr dat dlen req w.
         if addr < 128
         then (0, fill_block req (setWriteParams sample_enums addr dat dlen) 253 (store w))
         else (8, fill_block req (\<lambda>rb. rb) 8 (store w))),
      drv_read = (\<lambda>addr rbuf rlen wbuf wlen req w.
         if addr < 128
         then (0, fill_block req (setRequestParams sample_enums addr rbuf rlen wbuf wlen) 253
                    (store w))
         else (8, fill_block req (\<lambda>rb. rb) 8 (store w)))\<rparr>"

definition blank_rb :: I2CRB where
  "blank_rb =
     \<lparr>status = 0, i2cAddress = 0, writeBuffer = 0, writeLen = 0, readBuffer = 0,
      readLen = 0, operation = 0\<rparr>"

text \<open>A manager before \<^verbatim>\<open>begin\<close>, at 400 kHz with a timeout of 100 ms.\<close>

definition sample_world :: "unit world" where
  "sample_world =
     \<lparr>beginCompleted = False, clockSpeed = 400000, clockSpeedFixed = False,
      timeout = 100000,
      store = \<lparr>heap = (\<lambda>p. blank_rb), mem = (\<lambda>a. 0), hw = ()\<rparr>,
      trace = []\<rparr>"

subsection \<open>Reading the trace\<close>

text \<open>Repeated calls of \<^verbatim>\<open>begin\<close>, each on the world the one before left.\<close>

fun begin_times :: "enums \<Rightarrow> 'b driver \<Rightarrow> ptr \<Rightarrow> nat \<Rightarrow> 'b world \<Rightarrow> 'b world option" where
  "begin_times c d rb 0 w = Some w"
| "begin_times c d rb (Suc n) w =
     (case I2C_begin c d rb w of None \<Rightarrow> None | Some w1 \<Rightarrow> begin_times c d rb n w1)"

text \<open>
  The requests queued in a stretch of the trace: address, operation byte, write buffer
  and write length of each block as it was handed to \<^verbatim>\<open>queueRequest\<close>.
\<close>

fun queued :: "event list \<Rightarrow> (uint8_t \<times> uint8_t \<times> ptr \<times> uint8_t) list" where
  "queued [] = []"
| "queued (EvQueueRequest req rb # evs) =
     (i2cAddress rb, operation rb, writeBuffer rb, writeLen rb) # queued evs"
| "queued (ev # evs) = queued evs"

text \<open>The events that change the clock of the bus or the timeout.\<close>

fun is_config :: "event \<Rightarrow> bool" where
  "is_config (EvSetClock speed) = True"
| "is_config (EvSetTimeout v) = True"
| "is_config ev = False"

text \<open>The bus lines read in a stretch of the trace.\<close>

fun pins_read :: "event list \<Rightarrow> pin list" where
  "pins_read [] = []"
| "pins_read (EvDigitalRead pn # evs) = pn # pins_read evs"
| "pins_read (ev # evs) = pins_read evs"

text \<open>The probe of the scan for one address: a write of no bytes, retries suppressed.\<close>

definition probe :: "enums \<Rightarrow> uint8_t \<Rightarrow> uint8_t \<times> uint8_t \<times> ptr \<times> uint8_t" where
  "probe c addr = (addr, OPERATION_SEND c OR OPERATION_NORETRY c, NULL, 0)"

subsection \<open>What the calls establish\<close>

text \<open>
  What holds of the result \<open>r\<close> of a \<^verbatim>\<open>wait\<close> on the block at \<open>req\<close> that returns:
  the status returned is the status of the block, it is not
  \<^verbatim>\<open>I2C_STATUS_PENDING\<close>, the manager's own fields are as before, and the trace has
  grown by calls of \<^verbatim>\<open>loop()\<close> only.
\<close>

definition wait_post :: "enums \<Rightarrow> ptr \<Rightarrow> 'b world \<Rightarrow> uint8_t \<times> 'b world \<Rightarrow> bool" where
  "wait_post c req w r \<longleftrightarrow>
     fst r = status (rb_at (snd r) req) \<and> fst r \<noteq> I2C_STATUS_PENDING c \<and>
     beginCompleted (snd r) = beginCompleted w \<and> clockSpeed (snd r) = clockSpeed w \<and>
     clockSpeedFixed (snd r) = clockSpeedFixed w \<and> timeout (snd r) = timeout w \<and>
     (\<exists>n. trace (snd r) = trace w @ replicate n EvLoop)"

text \<open>
  The probe in the words of the spec, ``a zero-length write with retries suppressed'',
  written over a block \<open>blk\<close>: the address, a null write buffer, write length 0, the
  kind \<^verbatim>\<open>OPERATION_SEND\<close> with the no-retry flag, status \<^verbatim>\<open>I2C_STATUS_OK\<close>. It is
  compared below with the block that \<^verbatim>\<open>checkAddress\<close> builds.
\<close>

definition probe_block :: "enums \<Rightarrow> uint8_t \<Rightarrow> I2CRB \<Rightarrow> I2CRB" where
  "probe_block c address blk =
     blk\<lparr>i2cAddress := address, writeBuffer := NULL, writeLen := 0, readLen := 0,
         operation := OPERATION_SEND c OR OPERATION_NORETRY c, status := I2C_STATUS_OK c\<rparr>"

text \<open>
  What holds of the result \<open>r\<close> of a \<^verbatim>\<open>checkAddress\<close> that returns: as for
  \<^verbatim>\<open>wait\<close>, and the trace has grown by the request queued and calls of
  \<^verbatim>\<open>loop()\<close>.
\<close>

definition probe_post :: "enums \<Rightarrow> ptr \<Rightarrow> uint8_t \<Rightarrow> 'b world \<Rightarrow> uint8_t \<times> 'b world \<Rightarrow> bool" where
  "probe_post c rb a w r \<longleftrightarrow>
     fst r = status (rb_at (snd r) rb) \<and> fst r \<noteq> I2C_STATUS_PENDING c \<and>
     beginCompleted (snd r) = beginCompleted w \<and> clockSpeed (snd r) = clockSpeed w \<and>
     clockSpeedFixed (snd r) = clockSpeedFixed w \<and> timeout (snd r) = timeout w \<and>
     (\<exists>n. trace (snd r) =
            trace w @ EvQueueRequest rb (probe_block c a (rb_at w rb)) # replicate n EvLoop)"

text \<open>The events of the scan: requests queued, calls of \<^verbatim>\<open>loop()\<close>, diagnostics.\<close>

fun scan_only :: "event \<Rightarrow> bool" where
  "scan_only (EvQueueRequest req rb) = True"
| "scan_only EvLoop = True"
| "scan_only (EvDIAG fmt args) = True"
| "scan_only ev = False"

text \<open>The addresses 1 to 126.\<close>

definition scan_addresses :: "uint8_t list" where
  "scan_addresses = map of_nat [1..<127]"

text \<open>
  What holds of the world \<open>w'\<close> that the loop of \<^verbatim>\<open>begin\<close> leaves when it probes
  the addresses \<open>addrs\<close> from the world \<open>w\<close>.
\<close>

definition scan_post :: "enums \<Rightarrow> uint8_t list \<Rightarrow> 'b world \<Rightarrow> 'b world \<Rightarrow> bool" where
  "scan_post c addrs w w' \<longleftrightarrow>
     beginCompleted w' = beginCompleted w \<and> clockSpeed w' = clockSpeed w \<and>
     clockSpeedFixed w' = clockSpeedFixed w \<and> timeout w' = timeout w \<and>
     (\<exists>evs. trace w' = trace w @ evs \<and> list_all scan_only evs \<and>
            queued evs = map (probe c) addrs)"

text \<open>
  For the proofs, \<^verbatim>\<open>begin\<close> in two parts: its statements before the loop, up to
  \<^verbatim>\<open>_setClock(100000)\<close>, and those after the loop. \<open>I2C_begin\<close> is shown equal to
  their composition around \<open>scan\<close>.
\<close>

definition begin_prologue :: "'b driver \<Rightarrow> 'b world \<Rightarrow> 'b world" where
  "begin_prologue d w =
     (let w1 = w\<lparr>beginCompleted := True\<rparr>;
          w2 = initialise d w1;
          (sda, w3) = digitalRead d SDA w2;
          w4 = (if \<not> sda
                then DIAG ''WARNING: Possible short-circuit on I2C SDA line'' [] w3
                else w3);
          (scl, w5) = digitalRead d SCL w4;
          w6 = (if \<not> scl
                then DIAG ''WARNING: Possible short-circuit on I2C SCL line'' [] w5
                else w5)
      in setClock_hw d 100000 w6)"

definition begin_epilogue :: "'b driver \<Rightarrow> uint32_t \<Rightarrow> bool \<Rightarrow> 'b world \<Rightarrow> 'b world" where
  "begin_epilogue d originalTimeout found w9 =
     (let w10 = (if \<not> found then DIAG ''No I2C Devices found'' [] w9 else w9);
          w11 = setClock_hw d (clockSpeed w10) w10
      in setTimeout originalTimeout w11)"

text \<open>What holds of the world \<open>w'\<close> that the first \<^verbatim>\<open>begin\<close> leaves from \<open>w\<close>.\<close>

definition begin_post :: "enums \<Rightarrow> 'b world \<Rightarrow> 'b world \<Rightarrow> bool" where
  "begin_post c w w' \<longleftrightarrow>
     beginCompleted w' \<and> clockSpeed w' = clockSpeed w \<and>
     clockSpeedFixed w' = clockSpeedFixed w \<and> timeout w' = timeout w \<and>
     (\<exists>pre mid.
        trace w' = trace w @ pre @ [EvSetClock 100000, EvSetTimeout 1000] @ mid @
                     [EvSetClock (clockSpeed w), EvSetTimeout (timeout w)] \<and>
        filter (\<lambda>ev. ev = EvInitialise) pre = [EvInitialise] \<and>
        pins_read pre = [SDA, SCL] \<and> queued pre = [] \<and>
        list_all scan_only mid \<and> queued mid = map (probe c) scan_addresses)"

text \<open>
  What holds of the result \<open>res\<close> of a blocking call on the local block at \<open>req\<close>,
  where \<open>sub\<close> is what the submission (the non-blocking overload) returned and the world
  it left. A submission that returned \<^verbatim>\<open>I2C_STATUS_OK\<close>: the call is the \<^verbatim>\<open>wait\<close>
  on the block from that world. Any other code: the call returns that code and the
  world as the submission left it.
\<close>

definition blocking_result ::
  "enums \<Rightarrow> 'b driver \<Rightarrow> ptr \<Rightarrow> uint8_t \<times> 'b world \<Rightarrow> (uint8_t \<times> 'b world) option \<Rightarrow> bool" where
  "blocking_result c d req sub res \<longleftrightarrow>
     (if fst sub = I2C_STATUS_OK c
      then res = wait c d req (snd sub) \<and>
           (\<forall>r. res = Some r \<longrightarrow> wait_post c req (snd sub) r)
      else res = Some sub)"

text \<open>
  The clock of the bus after a stretch of the trace: the speed of the last
  \<^verbatim>\<open>_setClock\<close> in it, if any.
\<close>

fun clock_event :: "event \<Rightarrow> uint32_t option \<Rightarrow> uint32_t option" where
  "clock_event (EvSetClock speed) cur = Some speed"
| "clock_event ev cur = cur"

definition bus_clock :: "event list \<Rightarrow> uint32_t option" where
  "bus_clock evs = fold clock_event evs None"

text \<open>
  The window of the scan: the timeout is the probe timeout of 1000 microseconds and the
  bus runs at the probe clock of 100000 Hz.
\<close>

definition probe_window :: "'b world \<Rightarrow> bool" where
  "probe_window w \<longleftrightarrow> timeout w = 1000 \<and> bus_clock (trace w) = Some 100000"

text \<open>
  The world in which the probe of address \<open>a\<close> starts to run: the probe block written
  to \<open>rb\<close> and handed to \<^verbatim>\<open>queueRequest\<close>. And the world after a probe has ended:
  the device is reported when the block ended with \<^verbatim>\<open>I2C_STATUS_OK\<close>.
\<close>

definition probe_start :: "enums \<Rightarrow> 'b driver \<Rightarrow> ptr \<Rightarrow> uint8_t \<Rightarrow> 'b world \<Rightarrow> 'b world" where
  "probe_start c d rb a w = queueRequest d rb (rb_update rb (probe_block c a) w)"

definition found_report :: "enums \<Rightarrow> ptr \<Rightarrow> uint8_t \<Rightarrow> 'b world \<Rightarrow> 'b world" where
  "found_report c rb a w =
     (if status (rb_at w rb) = I2C_STATUS_OK c
      then DIAG ''I2C Device found at x%x'' [ucast a] w
      else w)"

text \<open>
  The probes of the addresses \<open>as\<close> run one after the other from the world \<open>w\<close> to
  the world \<open>w'\<close>. Each probe is queued inside the window; \<^verbatim>\<open>loop()\<close> is then called
  \<open>n\<close> times, each time inside the window and on a block that is still pending; after
  these \<open>n\<close> calls the block is no longer pending; the device is reported if found;
  and only then does the next probe start.
\<close>

fun scan_run ::
  "enums \<Rightarrow> 'b driver \<Rightarrow> ptr \<Rightarrow> uint8_t list \<Rightarrow> 'b world \<Rightarrow> 'b world \<Rightarrow> bool" where
  "scan_run c d rb [] w w' = (w' = w)"
| "scan_run c d rb (a # as) w w' =
     (\<exists>n. probe_window w \<and>
          (\<forall>k<n. status (rb_at ((loop d ^^ k) (probe_start c d rb a w)) rb)
                    = I2C_STATUS_PENDING c) \<and>
          (\<forall>k\<le>n. probe_window ((loop d ^^ k) (probe_start c d rb a w))) \<and>
          status (rb_at ((loop d ^^ n) (probe_start c d rb a w)) rb) \<noteq> I2C_STATUS_PENDING c \<and>
          scan_run c d rb as
            (found_report c rb a ((loop d ^^ n) (probe_start c d rb a w))) w')"

section \<open>Properties\<close>

subsection \<open>Bits\<close>

lemma or_and_not: "(x OR m) AND NOT m = x AND NOT m" for x :: "'a::len word"
  by (auto simp: bit_eq_iff bit_simps)
lemma and_not_and_not: "(x AND NOT m) AND NOT m = x AND NOT m" for x :: "'a::len word"
  by (auto simp: bit_eq_iff bit_simps)
lemma or_and_same: "(x OR m) AND m = m" for x :: "'a::len word"
  by (auto simp: bit_eq_iff bit_simps)
lemma and_not_and_same: "(x AND NOT m) AND m = 0" for x :: "'a::len word"
  by (auto simp: bit_eq_iff bit_simps)
lemma and_not_id_iff: "x AND NOT m = x \<longleftrightarrow> x AND m = 0" for x :: "'a::len word"
  by (auto simp: bit_eq_iff bit_simps)

subsection \<open>The manager's fields and the trace across the calls\<close>

lemma loop_fields [simp]:
  "beginCompleted (loop d w) = beginCompleted w"
  "clockSpeed (loop d w) = clockSpeed w"
  "clockSpeedFixed (loop d w) = clockSpeedFixed w"
  "timeout (loop d w) = timeout w"
  "trace (loop d w) = trace w @ [EvLoop]"
  by (simp_all add: loop_def log_call_def)

lemma setClock_hw_fields [simp]:
  "beginCompleted (setClock_hw d v w) = beginCompleted w"
  "clockSpeed (setClock_hw d v w) = clockSpeed w"
  "clockSpeedFixed (setClock_hw d v w) = clockSpeedFixed w"
  "timeout (setClock_hw d v w) = timeout w"
  "trace (setClock_hw d v w) = trace w @ [EvSetClock v]"
  by (simp_all add: setClock_hw_def log_call_def)

lemma DIAG_fields [simp]:
  "beginCompleted (DIAG f a w) = beginCompleted w"
  "clockSpeed (DIAG f a w) = clockSpeed w"
  "clockSpeedFixed (DIAG f a w) = clockSpeedFixed w"
  "timeout (DIAG f a w) = timeout w"
  "trace (DIAG f a w) = trace w @ [EvDIAG f a]"
  "store (DIAG f a w) = store w"
  by (simp_all add: DIAG_def log_call_def)

lemma rb_update_fields [simp]:
  "beginCompleted (rb_update p f w) = beginCompleted w"
  "clockSpeed (rb_update p f w) = clockSpeed w"
  "clockSpeedFixed (rb_update p f w) = clockSpeedFixed w"
  "timeout (rb_update p f w) = timeout w"
  "trace (rb_update p f w) = trace w"
  "rb_at (rb_update p f w) p = f (rb_at w p)"
  by (simp_all add: rb_update_def rb_at_def)

lemma rb_update_twice: "rb_update p g (rb_update p f w) = rb_update p (\<lambda>blk. g (f blk)) w"
  by (simp add: rb_update_def)

lemma queueRequest_fields [simp]:
  "beginCompleted (queueRequest d p w) = beginCompleted w"
  "clockSpeed (queueRequest d p w) = clockSpeed w"
  "clockSpeedFixed (queueRequest d p w) = clockSpeedFixed w"
  "timeout (queueRequest d p w) = timeout w"
  "trace (queueRequest d p w) = trace w @ [EvQueueRequest p (rb_at w p)]"
  by (simp_all add: queueRequest_def log_call_def)

lemma pins_read_append: "pins_read (xs @ ys) = pins_read xs @ pins_read ys"
  by (induction xs rule: pins_read.induct) simp_all

lemma initialise_fields [simp]:
  "beginCompleted (initialise d w) = beginCompleted w"
  "clockSpeed (initialise d w) = clockSpeed w"
  "clockSpeedFixed (initialise d w) = clockSpeedFixed w"
  "timeout (initialise d w) = timeout w"
  "trace (initialise d w) = trace w @ [EvInitialise]"
  by (simp_all add: initialise_def log_call_def)

lemma digitalRead_fields [simp]:
  "beginCompleted (snd (digitalRead d pn w)) = beginCompleted w"
  "clockSpeed (snd (digitalRead d pn w)) = clockSpeed w"
  "clockSpeedFixed (snd (digitalRead d pn w)) = clockSpeedFixed w"
  "timeout (snd (digitalRead d pn w)) = timeout w"
  "trace (snd (digitalRead d pn w)) = trace w @ [EvDigitalRead pn]"
  by (simp_all add: digitalRead_def log_call_def)

lemma setTimeout_fields [simp]:
  "beginCompleted (setTimeout v w) = beginCompleted w"
  "clockSpeed (setTimeout v w) = clockSpeed w"
  "clockSpeedFixed (setTimeout v w) = clockSpeedFixed w"
  "timeout (setTimeout v w) = v"
  "trace (setTimeout v w) = trace w @ [EvSetTimeout v]"
  by (simp_all add: setTimeout_def log_call_def)

lemma queued_append: "queued (xs @ ys) = queued xs @ queued ys"
  by (induction xs rule: queued.induct) simp_all

lemma queued_loops: "queued (replicate n EvLoop) = []"
  by (induction n) simp_all

lemma scan_only_loops: "list_all scan_only (replicate n EvLoop)"
  by (induction n) simp_all

subsection \<open>Clock speed\<close>

lemma setClock_clockSpeed:
  "clockSpeed (setClock d r w) = (if r < clockSpeed w \<and> \<not> clockSpeedFixed w then r else clockSpeed w)"
  by (simp add: setClock_def Let_def)

lemma setClock_fixed: "clockSpeedFixed (setClock d r w) = clockSpeedFixed w"
  by (simp add: setClock_def Let_def)

lemma forceClock_fields:
  "clockSpeed (forceClock d r w) = r" "clockSpeedFixed (forceClock d r w)"
  by (simp_all add: forceClock_def Let_def)

lemma setClock_fold_fixed:
  "clockSpeedFixed w \<Longrightarrow>
   clockSpeed (fold (setClock d) rs w) = clockSpeed w \<and> clockSpeedFixed (fold (setClock d) rs w)"
  by (induction rs arbitrary: w) (simp_all add: setClock_clockSpeed setClock_fixed)

lemma setClock_le: "clockSpeed (setClock d r w) \<le> clockSpeed w"
  by (auto simp: setClock_clockSpeed)

lemma setClock_twice:
  "clockSpeed (setClock d 9000 (setClock d 5000 w)) = clockSpeed (setClock d 5000 w)"
proof -
  have "(5000 :: uint32_t) < 9000" by simp
  then have "\<not> 5000 < clockSpeed w \<Longrightarrow> \<not> 9000 < clockSpeed w"
    using order.strict_trans by blast
  then show ?thesis
    by (auto simp: setClock_clockSpeed setClock_fixed)
qed

lemma setClock_fold_le:
  "clockSpeed (fold (setClock d) rs w) \<le> clockSpeed w"
proof (induction rs arbitrary: w)
  case Nil
  show ?case by simp
next
  case (Cons r rs)
  have "clockSpeed (fold (setClock d) rs (setClock d r w)) \<le> clockSpeed (setClock d r w)"
    by (rule Cons.IH)
  also have "\<dots> \<le> clockSpeed w" by (rule setClock_le)
  finally show ?case by simp
qed

subsection \<open>wait\<close>

lemma wait_post_step:
  assumes "wait_post c req (loop d w) r"
  shows "wait_post c req w r"
proof -
  from assms obtain n where "trace (snd r) = trace (loop d w) @ replicate n EvLoop"
    by (auto simp: wait_post_def)
  then have "trace (snd r) = trace w @ replicate (Suc n) EvLoop"
    by simp
  then have "\<exists>n. trace (snd r) = trace w @ replicate n EvLoop" by blast
  with assms show ?thesis by (auto simp: wait_post_def)
qed

lemma wait_result:
  assumes "wait c d req w = Some r"
  shows "wait_post c req w r"
proof (rule wait.raw_induct [where P = "\<lambda>c d req w r. wait_post c req w r", OF _ assms])
  fix wt :: "enums \<Rightarrow> 'b driver \<Rightarrow> ptr \<Rightarrow> 'b world \<Rightarrow> (uint8_t \<times> 'b world) option"
    and c d req w r
  assume IH: "\<And>c d req w r. wt c d req w = Some r \<Longrightarrow> wait_post c req w r"
    and eq: "(if status (rb_at w req) = I2C_STATUS_PENDING c
              then wt c d req (loop d w) else Some (status (rb_at w req), w)) = Some r"
  show "wait_post c req w r"
  proof (cases "status (rb_at w req) = I2C_STATUS_PENDING c")
    case True
    with eq have "wt c d req (loop d w) = Some r" by simp
    then have "wait_post c req (loop d w) r" by (rule IH)
    then show ?thesis by (rule wait_post_step)
  next
    case False
    with eq have "r = (status (rb_at w req), w)" by simp
    with False show ?thesis by (simp add: wait_post_def)
  qed
qed

subsection \<open>checkAddress\<close>

lemma probe_block_eq:
  "suppressRetries c True (setWriteParams c a NULL 0 blk) = probe_block c a blk"
  by (simp add: suppressRetries_def setWriteParams_def probe_block_def)

lemma checkAddress_eq:
  "checkAddress c d rb a w = wait c d rb (queueRequest d rb (rb_update rb (probe_block c a) w))"
  by (simp add: checkAddress_def Let_def rb_update_twice probe_block_eq)

lemma checkAddress_result:
  assumes "checkAddress c d rb a w = Some r"
  shows "probe_post c rb a w r"
proof -
  let ?w0 = "queueRequest d rb (rb_update rb (probe_block c a) w)"
  from assms have "wait c d rb ?w0 = Some r" by (simp add: checkAddress_eq)
  then have "wait_post c rb ?w0 r" by (rule wait_result)
  then show ?thesis by (auto simp: wait_post_def probe_post_def)
qed

lemma checkAddress_returns:
  assumes "completes_requests c d"
  shows "\<exists>r. checkAddress c d rb a w = Some r"
  using assms by (simp add: checkAddress_eq completes_requests_def)

lemma probe_block_noretry:
  "operation (probe_block c a blk) AND OPERATION_NORETRY c = OPERATION_NORETRY c"
  by (simp add: probe_block_def or_and_same)

subsection \<open>The scan\<close>

lemma queued_probe_block:
  "queued [EvQueueRequest rb (probe_block c a blk)] = [probe c a]"
  by (simp add: probe_block_def probe_def)

lemma scan_post_refl: "scan_post c [] w w"
  by (simp add: scan_post_def)

lemma scan_post_DIAG:
  assumes "scan_post c addrs (DIAG f args w1) w'"
  shows "scan_post c addrs w1 w'"
proof -
  from assms obtain evs where
    e: "trace w' = trace (DIAG f args w1) @ evs" "list_all scan_only evs"
       "queued evs = map (probe c) addrs"
    by (auto simp: scan_post_def)
  from e(1) have "trace w' = trace w1 @ (EvDIAG f args # evs)" by simp
  moreover from e(2) have "list_all scan_only (EvDIAG f args # evs)" by simp
  moreover from e(3) have "queued (EvDIAG f args # evs) = map (probe c) addrs" by simp
  ultimately have "\<exists>evs. trace w' = trace w1 @ evs \<and> list_all scan_only evs \<and>
      queued evs = map (probe c) addrs"
    by blast
  with assms show ?thesis by (simp add: scan_post_def)
qed

lemma scan_post_probe:
  assumes p: "probe_post c rb a w r" and s: "scan_post c addrs (snd r) w'"
  shows "scan_post c (a # addrs) w w'"
proof -
  from p obtain n where
    t1: "trace (snd r) = trace w @ EvQueueRequest rb (probe_block c a (rb_at w rb)) # replicate n EvLoop"
    by (auto simp: probe_post_def)
  from s obtain evs where
    e: "trace w' = trace (snd r) @ evs" "list_all scan_only evs"
       "queued evs = map (probe c) addrs"
    by (auto simp: scan_post_def)
  let ?evs = "EvQueueRequest rb (probe_block c a (rb_at w rb)) # replicate n EvLoop @ evs"
  from t1 e(1) have "trace w' = trace w @ ?evs" by simp
  moreover from e(2) have "list_all scan_only ?evs" by (simp add: scan_only_loops)
  moreover from e(3) have "queued ?evs = map (probe c) (a # addrs)"
    using queued_probe_block [of rb c a "rb_at w rb"]
    by (simp add: queued_append queued_loops)
  ultimately have "\<exists>evs. trace w' = trace w @ evs \<and> list_all scan_only evs \<and>
      queued evs = map (probe c) (a # addrs)"
    by blast
  with p s show ?thesis by (simp add: scan_post_def probe_post_def)
qed

lemma exists_dev_Some:
  "exists_dev c d rb a w = Some (ex, w1) \<Longrightarrow>
   \<exists>st. checkAddress c d rb a w = Some (st, w1) \<and> ex = (st = I2C_STATUS_OK c)"
  by (auto simp: exists_dev_def split: option.splits)

lemma exists_dev_returns:
  "completes_requests c d \<Longrightarrow> \<exists>r. exists_dev c d rb a w = Some r"
  using checkAddress_returns [of c d rb a w] by (auto simp: exists_dev_def)

lemma upt_byte:
  fixes addr :: uint8_t
  assumes "addr < 127"
  shows "map of_nat [unat addr..<127] = addr # (map of_nat [unat (addr + 1)..<127] :: uint8_t list)"
proof -
  from assms have "unat addr < 127" "unat (addr + 1) = Suc (unat addr)"
    by (simp_all add: word_less_nat_alt unat_word_ariths)
  then show ?thesis by (simp add: upt_conv_Cons)
qed

lemma scan_stop:
  fixes addr :: uint8_t
  assumes "\<not> addr < 127"
  shows "scan c d rb addr found w = Some (found, w)"
    and "map of_nat [unat addr..<127] = ([] :: uint8_t list)"
proof -
  from assms have "127 \<le> unat addr" by (simp add: word_less_nat_alt)
  then show "map of_nat [unat addr..<127] = ([] :: uint8_t list)" by simp
  from assms show "scan c d rb addr found w = Some (found, w)"
    by (subst scan.simps) simp
qed

lemma scan_step:
  assumes "addr < 127" and "exists_dev c d rb addr w = Some (ex, w1)"
  shows "scan c d rb addr found w =
           (if ex
            then scan c d rb (addr + 1) True (DIAG ''I2C Device found at x%x'' [ucast addr] w1)
            else scan c d rb (addr + 1) found w1)"
  using assms by (subst scan.simps) simp

lemma scan_post_holds:
  "scan c d rb addr found w = Some (fnd, w') \<Longrightarrow>
   scan_post c (map of_nat [unat addr..<127]) w w'"
proof (induction c d rb addr found w rule: scan.induct)
  case (1 c d rb addr found w)
  show ?case
  proof (cases "addr < 127")
    case False
    with "1.prems" show ?thesis by (simp add: scan_stop scan_post_refl)
  next
    case True
    from "1.prems" True obtain x where "exists_dev c d rb addr w = Some x"
      by (subst (asm) scan.simps) (auto split: option.splits)
    then obtain ex w1 where ex: "exists_dev c d rb addr w = Some (ex, w1)"
      by (cases x) simp
    from exists_dev_Some [OF ex] obtain st where
      "checkAddress c d rb addr w = Some (st, w1)" by blast
    then have pp: "probe_post c rb addr w (st, w1)" by (rule checkAddress_result)
    note step = scan_step [OF True ex, of found]
    have "scan_post c (map of_nat [unat (addr + 1)..<127]) w1 w'"
    proof (cases ex)
      case True
      with "1.prems" step
      have "scan c d rb (addr + 1) True (DIAG ''I2C Device found at x%x'' [ucast addr] w1)
              = Some (fnd, w')"
        by simp
      from "1.IH"(1) [OF \<open>addr < 127\<close> ex refl True this] show ?thesis
        by (rule scan_post_DIAG)
    next
      case False
      with "1.prems" step have "scan c d rb (addr + 1) found w1 = Some (fnd, w')"
        by simp
      from "1.IH"(2) [OF \<open>addr < 127\<close> ex refl False this] show ?thesis .
    qed
    with pp have "scan_post c (addr # map of_nat [unat (addr + 1)..<127]) w w'"
      using scan_post_probe [of c rb addr w "(st, w1)"] by simp
    then show ?thesis by (simp add: upt_byte [OF True])
  qed
qed

lemma scan_returns:
  "completes_requests c d \<Longrightarrow> \<exists>r. scan c d rb addr found w = Some r"
proof (induction c d rb addr found w rule: scan.induct)
  case (1 c d rb addr found w)
  note cr = "1.prems"
  show ?case
  proof (cases "addr < 127")
    case False
    then show ?thesis by (simp add: scan_stop)
  next
    case True
    from exists_dev_returns [OF cr] obtain ex w1 where
      ex: "exists_dev c d rb addr w = Some (ex, w1)" by (metis surj_pair)
    show ?thesis
    proof (cases ex)
      case True
      with "1.IH"(1) [OF \<open>addr < 127\<close> ex refl True cr] scan_step [OF \<open>addr < 127\<close> ex, of found]
      show ?thesis by simp
    next
      case False
      with "1.IH"(2) [OF \<open>addr < 127\<close> ex refl False cr] scan_step [OF \<open>addr < 127\<close> ex, of found]
      show ?thesis by simp
    qed
  qed
qed

subsection \<open>begin\<close>

lemma begin_prologue_fields:
  "beginCompleted (begin_prologue d w)"
  "clockSpeed (begin_prologue d w) = clockSpeed w"
  "clockSpeedFixed (begin_prologue d w) = clockSpeedFixed w"
  "timeout (begin_prologue d w) = timeout w"
  by (simp_all add: begin_prologue_def Let_def split_beta)

lemma line_check_trace:
  "\<exists>a. trace (if \<not> fst (digitalRead d pn w) then DIAG msg [] (snd (digitalRead d pn w))
                else snd (digitalRead d pn w)) = trace w @ EvDigitalRead pn # a \<and>
       filter (\<lambda>ev. ev = EvInitialise) a = [] \<and> pins_read a = [] \<and> queued a = []"
  by (cases "fst (digitalRead d pn w)") simp_all

lemma begin_prologue_trace:
  "\<exists>pre. trace (begin_prologue d w) = trace w @ pre @ [EvSetClock 100000] \<and>
         filter (\<lambda>ev. ev = EvInitialise) pre = [EvInitialise] \<and>
         pins_read pre = [SDA, SCL] \<and> queued pre = []"
proof -
  define w2 where "w2 = initialise d (w\<lparr>beginCompleted := True\<rparr>)"
  define w4 where
    "w4 = (if \<not> fst (digitalRead d SDA w2)
           then DIAG ''WARNING: Possible short-circuit on I2C SDA line'' []
                  (snd (digitalRead d SDA w2))
           else snd (digitalRead d SDA w2))"
  define w6 where
    "w6 = (if \<not> fst (digitalRead d SCL w4)
           then DIAG ''WARNING: Possible short-circuit on I2C SCL line'' []
                  (snd (digitalRead d SCL w4))
           else snd (digitalRead d SCL w4))"
  have p: "begin_prologue d w = setClock_hw d 100000 w6"
    by (simp add: begin_prologue_def Let_def split_beta w2_def w4_def w6_def)
  have t2: "trace w2 = trace w @ [EvInitialise]"
    by (simp add: w2_def)
  obtain a where a: "trace w4 = trace w2 @ EvDigitalRead SDA # a"
    "filter (\<lambda>ev. ev = EvInitialise) a = []" "pins_read a = []" "queued a = []"
    unfolding w4_def using line_check_trace [of d SDA w2] by blast
  obtain b where b: "trace w6 = trace w4 @ EvDigitalRead SCL # b"
    "filter (\<lambda>ev. ev = EvInitialise) b = []" "pins_read b = []" "queued b = []"
    unfolding w6_def using line_check_trace [of d SCL w4] by blast
  let ?pre = "EvInitialise # EvDigitalRead SDA # a @ EvDigitalRead SCL # b"
  have "trace (begin_prologue d w) = trace w @ ?pre @ [EvSetClock 100000]"
    by (simp add: p t2 a(1) b(1))
  moreover have "filter (\<lambda>ev. ev = EvInitialise) ?pre = [EvInitialise]"
    by (simp add: a(2) b(2))
  moreover have "pins_read ?pre = [SDA, SCL]"
    by (simp add: pins_read_append a(3) b(3))
  moreover have "queued ?pre = []"
    by (simp add: queued_append a(4) b(4))
  ultimately show ?thesis by blast
qed

lemma I2C_begin_unfold:
  assumes "\<not> beginCompleted w"
  shows "I2C_begin c d rb w =
    (case scan c d rb 1 False (setTimeout 1000 (begin_prologue d w)) of
       None \<Rightarrow> None
     | Some (found, w9) \<Rightarrow> Some (begin_epilogue d (timeout (begin_prologue d w)) found w9))"
  unfolding I2C_begin_def begin_prologue_def begin_epilogue_def Let_def split_beta
  using assms by (simp only: not_False_eq_True if_True)

lemma I2C_begin_done: "beginCompleted w \<Longrightarrow> I2C_begin c d rb w = Some w"
  by (simp add: I2C_begin_def)

lemma begin_times_done: "beginCompleted w \<Longrightarrow> begin_times c d rb n w = Some w"
  by (induction n) (simp_all add: I2C_begin_done)


lemma begin_epilogue_fields:
  "beginCompleted (begin_epilogue d t0 found w9) = beginCompleted w9"
  "clockSpeed (begin_epilogue d t0 found w9) = clockSpeed w9"
  "clockSpeedFixed (begin_epilogue d t0 found w9) = clockSpeedFixed w9"
  "timeout (begin_epilogue d t0 found w9) = t0"
  by (simp_all add: begin_epilogue_def Let_def)

lemma begin_epilogue_trace:
  "\<exists>e. trace (begin_epilogue d t0 found w9) =
          trace w9 @ e @ [EvSetClock (clockSpeed w9), EvSetTimeout t0] \<and>
       list_all scan_only e \<and> queued e = []"
  by (cases found) (simp_all add: begin_epilogue_def Let_def)

lemma scan_addresses_eq: "map of_nat [unat (1 :: uint8_t)..<127] = scan_addresses"
  by (simp add: scan_addresses_def)

lemma begin_first_post:
  assumes nb: "\<not> beginCompleted w" and res: "I2C_begin c d rb w = Some w'"
  shows "begin_post c w w'"
proof -
  let ?w7 = "begin_prologue d w"
  let ?w8 = "setTimeout 1000 ?w7"
  from res obtain x where "scan c d rb 1 False ?w8 = Some x"
    by (auto simp: I2C_begin_unfold [OF nb] split: option.splits)
  then obtain found w9 where sc: "scan c d rb 1 False ?w8 = Some (found, w9)"
    by (cases x) simp
  with res have w': "w' = begin_epilogue d (timeout w) found w9"
    by (simp add: I2C_begin_unfold [OF nb] begin_prologue_fields)
  from scan_post_holds [OF sc] have sp: "scan_post c scan_addresses ?w8 w9"
    unfolding scan_addresses_eq .
  from sp have f9: "beginCompleted w9" "clockSpeed w9 = clockSpeed w"
    "clockSpeedFixed w9 = clockSpeedFixed w"
    by (simp_all add: scan_post_def begin_prologue_fields)
  from sp obtain evs where evs: "trace w9 = trace ?w8 @ evs" "list_all scan_only evs"
    "queued evs = map (probe c) scan_addresses"
    by (auto simp: scan_post_def)
  from begin_prologue_trace [of d w] obtain pre where
    pre: "trace ?w7 = trace w @ pre @ [EvSetClock 100000]"
    "filter (\<lambda>ev. ev = EvInitialise) pre = [EvInitialise]"
    "pins_read pre = [SDA, SCL]" "queued pre = []"
    by blast
  from begin_epilogue_trace [of d "timeout w" found w9] obtain e where
    e: "trace w' = trace w9 @ e @ [EvSetClock (clockSpeed w9), EvSetTimeout (timeout w)]"
    "list_all scan_only e" "queued e = []"
    unfolding w' by blast
  have "trace w' = trace w @ pre @ [EvSetClock 100000, EvSetTimeout 1000] @ (evs @ e) @
          [EvSetClock (clockSpeed w), EvSetTimeout (timeout w)]"
    by (simp add: e(1) evs(1) pre(1) f9(2))
  moreover have "list_all scan_only (evs @ e)"
    by (simp add: evs(2) e(2))
  moreover have "queued (evs @ e) = map (probe c) scan_addresses"
    by (simp add: queued_append evs(3) e(3))
  ultimately have "\<exists>pre mid.
        trace w' = trace w @ pre @ [EvSetClock 100000, EvSetTimeout 1000] @ mid @
                     [EvSetClock (clockSpeed w), EvSetTimeout (timeout w)] \<and>
        filter (\<lambda>ev. ev = EvInitialise) pre = [EvInitialise] \<and>
        pins_read pre = [SDA, SCL] \<and> queued pre = [] \<and>
        list_all scan_only mid \<and> queued mid = map (probe c) scan_addresses"
    using pre(2,3,4) by blast
  then show ?thesis
    by (simp add: begin_post_def w' begin_epilogue_fields f9)
qed

lemma begin_returns:
  assumes "completes_requests c d"
  shows "\<exists>w'. I2C_begin c d rb w = Some w'"
proof (cases "beginCompleted w")
  case True
  then show ?thesis by (simp add: I2C_begin_done)
next
  case False
  from scan_returns [OF assms, of rb 1 False "setTimeout 1000 (begin_prologue d w)"]
  show ?thesis by (auto simp: I2C_begin_unfold [OF False])
qed

subsection \<open>The sample driver\<close>

lemma sample_wait: "wait sample_enums sample_driver req w \<noteq> None"
proof (cases "status (rb_at w req) = 253")
  case False
  then show ?thesis by (subst wait.simps) (simp add: sample_enums_def)
next
  case True
  have "status (rb_at (loop sample_driver w) req) = 2"
    using True by (simp add: loop_def log_call_def rb_at_def sample_driver_def nak_pending_def)
  then have "wait sample_enums sample_driver req (loop sample_driver w) \<noteq> None"
    by (subst wait.simps) (simp add: sample_enums_def)
  with True show ?thesis by (subst wait.simps) (simp add: sample_enums_def)
qed

lemma sample_completes: "completes_requests sample_enums sample_driver"
  by (simp add: completes_requests_def sample_wait)

lemma sample_rejects: "rejects_synchronously sample_enums sample_driver"
  unfolding rejects_synchronously_def
  by (simp add: write_req_def write_P_req_def read_req_def sample_driver_def sample_enums_def
    log_call_def rb_at_def fill_block_def)

subsection \<open>Blocking calls\<close>

lemma finishRB_result:
  assumes "req \<noteq> NULL"
  shows "blocking_result c d req sub (finishRB c d req (fst sub) (snd sub))"
  using assms by (auto simp: blocking_result_def finishRB_def dest: wait_result)

lemma I2C_write_result:
  assumes "req \<noteq> NULL"
  shows "blocking_result c d req (write_req d a wbuf wlen req w) (I2C_write c d req a wbuf wlen w)"
  using finishRB_result [OF assms, of c d "write_req d a wbuf wlen req w"]
  by (simp add: I2C_write_def split_beta)

lemma I2C_write_P_result:
  assumes "req \<noteq> NULL"
  shows "blocking_result c d req (write_P_req d a dat dlen req w)
           (I2C_write_P c d req a dat dlen w)"
  using finishRB_result [OF assms, of c d "write_P_req d a dat dlen req w"]
  by (simp add: I2C_write_P_def split_beta)

lemma I2C_read_result:
  assumes "req \<noteq> NULL"
  shows "blocking_result c d req (read_req d a rbuf rlen wbuf wlen req w)
           (I2C_read c d req a rbuf rlen wbuf wlen w)"
  using finishRB_result [OF assms, of c d "read_req d a rbuf rlen wbuf wlen req w"]
  by (simp add: I2C_read_def split_beta)

lemma blocking_returns:
  assumes "completes_requests c d"
  shows "\<exists>r. I2C_write c d req a wbuf wlen w = Some r"
    and "\<exists>r. I2C_write_P c d req a wbuf wlen w = Some r"
    and "\<exists>r. I2C_read c d req a rbuf rlen wbuf wlen w = Some r"
  using assms
  by (auto simp: completes_requests_def I2C_write_def I2C_write_P_def I2C_read_def
      finishRB_def split_beta)

lemma submission_trace:
  "trace (snd (write_req d a wbuf wlen req w)) = trace w @ [EvWrite a wbuf wlen req]"
  "trace (snd (write_P_req d a wbuf wlen req w)) = trace w @ [EvWrite_P a wbuf wlen req]"
  "trace (snd (read_req d a rbuf rlen wbuf wlen req w)) =
     trace w @ [EvRead a rbuf rlen wbuf wlen req]"
  by (simp_all add: write_req_def write_P_req_def read_req_def log_call_def)

lemma mem_store_fields [simp]:
  "trace (mem_store a v w) = trace w"
  "heap (store (mem_store a v w)) = heap (store w)"
  by (simp_all add: mem_store_def)

lemma va_copy_returns:
  "unat n - unat i \<le> length args \<Longrightarrow>
   \<exists>w1. va_copy buffer n i args w = Some w1 \<and> trace w1 = trace w \<and>
        heap (store w1) = heap (store w)"
proof (induction buffer n i args w rule: va_copy.induct)
  case (1 buffer n i args w)
  show ?case
  proof (cases "i < n")
    case False
    then show ?thesis by simp
  next
    case True
    then have lt: "unat i < unat n" by (simp add: word_less_nat_alt)
    moreover have "unat n < 256" using unsigned_less [of n, where ?'a = nat] by simp
    ultimately have suc: "unat (i + 1) = Suc (unat i)"
      by (simp add: unat_word_ariths)
    from lt "1.prems" obtain x xs where args: "args = x # xs"
      by (cases args) auto
    with "1.prems" suc lt have "unat n - unat (i + 1) \<le> length xs" by simp
    from "1.IH" [OF True args this] True args show ?thesis by simp
  qed
qed

lemma blocking_result_rejected:
  "blocking_result c d req sub res \<Longrightarrow> fst sub \<noteq> I2C_STATUS_OK c \<Longrightarrow> res = Some sub"
  by (simp add: blocking_result_def)

lemma sample_write_rejected:
  "fst (write_req sample_driver 200 0 0 16 sample_world) = 8"
  by (simp add: write_req_def sample_driver_def)

lemma sample_write_accepted:
  "fst (write_req sample_driver 32 0 0 16 sample_world) = 0"
  by (simp add: write_req_def sample_driver_def)

subsection \<open>The trace of the first begin\<close>

lemma scan_only_quiet:
  "list_all scan_only evs \<Longrightarrow>
   filter (\<lambda>ev. ev = EvInitialise) evs = [] \<and> pins_read evs = [] \<and> filter is_config evs = []"
proof (induction evs)
  case Nil
  show ?case by simp
next
  case (Cons ev evs)
  then show ?case by (cases ev) simp_all
qed

lemma queued_addresses: "map (fst \<circ> probe c) addrs = addrs"
  by (induction addrs) (simp_all add: probe_def)



subsection \<open>The request block\<close>

lemma rb_upd_id: "rb\<lparr>operation := v\<rparr> = rb \<longleftrightarrow> v = operation rb" for rb :: I2CRB
  by (cases rb) auto

lemma suppressRetries_other_bits:
  "operation (suppressRetries c b rb) AND NOT (OPERATION_NORETRY c) =
   operation rb AND NOT (OPERATION_NORETRY c)"
  by (simp add: suppressRetries_def or_and_not and_not_and_not)

lemma suppressRetries_flag:
  "operation (suppressRetries c b rb) AND OPERATION_NORETRY c =
   (if b then OPERATION_NORETRY c else 0)"
  by (simp add: suppressRetries_def or_and_same and_not_and_same)

lemma suppressRetries_on_off:
  "suppressRetries c False (suppressRetries c True rb) =
   rb\<lparr>operation := operation rb AND NOT (OPERATION_NORETRY c)\<rparr>"
  by (simp add: suppressRetries_def or_and_not)

lemma suppressRetries_on_off_id:
  "suppressRetries c False (suppressRetries c True rb) = rb \<longleftrightarrow>
   operation rb AND OPERATION_NORETRY c = 0"
  by (simp add: suppressRetries_on_off rb_upd_id and_not_id_iff)

lemma suppressRetries_frame:
  "status (suppressRetries c b rb) = status rb \<and>
   i2cAddress (suppressRetries c b rb) = i2cAddress rb \<and>
   writeBuffer (suppressRetries c b rb) = writeBuffer rb \<and>
   writeLen (suppressRetries c b rb) = writeLen rb \<and>
   readBuffer (suppressRetries c b rb) = readBuffer rb \<and>
   readLen (suppressRetries c b rb) = readLen rb"
  by (simp add: suppressRetries_def)

lemma suppressRetries_not_involutive:
  assumes "OPERATION_NORETRY c \<noteq> 0"
  shows "suppressRetries c False (suppressRetries c True (rb\<lparr>operation := OPERATION_NORETRY c\<rparr>))
         \<noteq> rb\<lparr>operation := OPERATION_NORETRY c\<rparr>"
  using assms by (simp add: suppressRetries_on_off_id)

lemma probe_block_kind:
  "OPERATION_SEND c AND OPERATION_NORETRY c = 0 \<Longrightarrow>
   operation (probe_block c a blk) AND NOT (OPERATION_NORETRY c) = OPERATION_SEND c"
  by (simp add: probe_block_def or_and_not and_not_id_iff)

subsection \<open>getErrorMessage\<close>

lemma getErrorMessage_known:
  "distinct (status_codes c) \<Longrightarrow> map (getErrorMessage c) (status_codes c) = status_messages"
  unfolding status_codes_def status_messages_def getErrorMessage_def
  by auto

lemma getErrorMessage_default:
  "st \<notin> set (status_codes c) \<Longrightarrow> getErrorMessage c st = ''Error code not recognised''"
  by (simp add: status_codes_def getErrorMessage_def)

lemma status_messages_distinct:
  "distinct status_messages \<and> ''Error code not recognised'' \<notin> set status_messages"
  by (simp add: status_messages_def)

subsection \<open>The probes of the scan, one by one\<close>

lemma bus_clock_snoc: "bus_clock (evs @ [ev]) = clock_event ev (bus_clock evs)"
  by (simp add: bus_clock_def)

lemma probe_window_loop [simp]: "probe_window (loop d w) = probe_window w"
  by (simp add: probe_window_def bus_clock_snoc)

lemma probe_window_loops [simp]: "probe_window ((loop d ^^ k) w) = probe_window w"
  by (induction k) simp_all

lemma probe_window_DIAG [simp]: "probe_window (DIAG f args w) = probe_window w"
  by (simp add: probe_window_def bus_clock_snoc)

lemma probe_window_start [simp]: "probe_window (probe_start c d rb a w) = probe_window w"
  by (simp add: probe_window_def probe_start_def bus_clock_snoc)

lemma probe_window_report [simp]: "probe_window (found_report c rb a w) = probe_window w"
  by (simp add: found_report_def)

lemma wait_loops:
  assumes "wait c d req w = Some r"
  shows "\<exists>n. snd r = (loop d ^^ n) w \<and>
             (\<forall>k<n. status (rb_at ((loop d ^^ k) w) req) = I2C_STATUS_PENDING c) \<and>
             status (rb_at (snd r) req) \<noteq> I2C_STATUS_PENDING c \<and>
             fst r = status (rb_at (snd r) req)"
proof (rule wait.raw_induct [where P = "\<lambda>c d req w r. \<exists>n. snd r = (loop d ^^ n) w \<and>
             (\<forall>k<n. status (rb_at ((loop d ^^ k) w) req) = I2C_STATUS_PENDING c) \<and>
             status (rb_at (snd r) req) \<noteq> I2C_STATUS_PENDING c \<and>
             fst r = status (rb_at (snd r) req)", OF _ assms])
  fix wt :: "enums \<Rightarrow> 'b driver \<Rightarrow> ptr \<Rightarrow> 'b world \<Rightarrow> (uint8_t \<times> 'b world) option"
    and c d req w r
  assume IH: "\<And>c d req w r. wt c d req w = Some r \<Longrightarrow>
      \<exists>n. snd r = (loop d ^^ n) w \<and>
             (\<forall>k<n. status (rb_at ((loop d ^^ k) w) req) = I2C_STATUS_PENDING c) \<and>
             status (rb_at (snd r) req) \<noteq> I2C_STATUS_PENDING c \<and>
             fst r = status (rb_at (snd r) req)"
    and eq: "(if status (rb_at w req) = I2C_STATUS_PENDING c
              then wt c d req (loop d w) else Some (status (rb_at w req), w)) = Some r"
  show "\<exists>n. snd r = (loop d ^^ n) w \<and>
             (\<forall>k<n. status (rb_at ((loop d ^^ k) w) req) = I2C_STATUS_PENDING c) \<and>
             status (rb_at (snd r) req) \<noteq> I2C_STATUS_PENDING c \<and>
             fst r = status (rb_at (snd r) req)"
  proof (cases "status (rb_at w req) = I2C_STATUS_PENDING c")
    case True
    with eq have "wt c d req (loop d w) = Some r" by simp
    from IH [OF this] obtain n where
      n: "snd r = (loop d ^^ n) (loop d w)"
         "\<forall>k<n. status (rb_at ((loop d ^^ k) (loop d w)) req) = I2C_STATUS_PENDING c"
         "status (rb_at (snd r) req) \<noteq> I2C_STATUS_PENDING c"
         "fst r = status (rb_at (snd r) req)"
      by blast
    have "snd r = (loop d ^^ Suc n) w"
      by (simp add: n(1) funpow_swap1)
    moreover have "\<forall>k<Suc n. status (rb_at ((loop d ^^ k) w) req) = I2C_STATUS_PENDING c"
    proof (intro allI impI)
      fix k assume "k < Suc n"
      show "status (rb_at ((loop d ^^ k) w) req) = I2C_STATUS_PENDING c"
      proof (cases k)
        case 0
        with True show ?thesis by simp
      next
        case (Suc j)
        with \<open>k < Suc n\<close> n(2) show ?thesis by (simp add: funpow_swap1)
      qed
    qed
    ultimately show ?thesis using n(3,4) by blast
  next
    case False
    with eq have "r = (status (rb_at w req), w)" by simp
    with False have "snd r = (loop d ^^ 0) w \<and>
             (\<forall>k<0. status (rb_at ((loop d ^^ k) w) req) = I2C_STATUS_PENDING c) \<and>
             status (rb_at (snd r) req) \<noteq> I2C_STATUS_PENDING c \<and>
             fst r = status (rb_at (snd r) req)"
      by simp
    then show ?thesis by blast
  qed
qed

lemma scan_run_holds:
  "scan c d rb addr found w = Some (fnd, w') \<Longrightarrow> probe_window w \<Longrightarrow>
   scan_run c d rb (map of_nat [unat addr..<127]) w w'"
proof (induction c d rb addr found w rule: scan.induct)
  case (1 c d rb addr found w)
  note res = "1.prems"(1) and pw = "1.prems"(2)
  show ?case
  proof (cases "addr < 127")
    case False
    with res show ?thesis by (simp add: scan_stop)
  next
    case True
    from res True obtain x where "exists_dev c d rb addr w = Some x"
      by (subst (asm) scan.simps) (auto split: option.splits)
    then obtain ex w1 where ex: "exists_dev c d rb addr w = Some (ex, w1)"
      by (cases x) simp
    from exists_dev_Some [OF ex] obtain st where
      ca: "checkAddress c d rb addr w = Some (st, w1)" and exst: "ex = (st = I2C_STATUS_OK c)"
      by blast
    let ?w0 = "probe_start c d rb addr w"
    from ca have "wait c d rb ?w0 = Some (st, w1)"
      by (simp add: checkAddress_eq probe_start_def)
    from wait_loops [OF this] obtain n where
      n: "w1 = (loop d ^^ n) ?w0"
         "\<forall>k<n. status (rb_at ((loop d ^^ k) ?w0) rb) = I2C_STATUS_PENDING c"
         "status (rb_at w1 rb) \<noteq> I2C_STATUS_PENDING c"
         "st = status (rb_at w1 rb)"
      by auto
    note step = scan_step [OF True ex, of found]
    have pw1: "probe_window w1" using pw by (simp add: n(1))
    have "scan_run c d rb (map of_nat [unat (addr + 1)..<127]) (found_report c rb addr w1) w'"
    proof (cases ex)
      case True
      with res step
      have "scan c d rb (addr + 1) True (DIAG ''I2C Device found at x%x'' [ucast addr] w1)
              = Some (fnd, w')"
        by simp
      from "1.IH"(1) [OF \<open>addr < 127\<close> ex refl True this] pw1 True exst n(4)
      show ?thesis by (simp add: found_report_def)
    next
      case False
      with res step have "scan c d rb (addr + 1) found w1 = Some (fnd, w')"
        by simp
      from "1.IH"(2) [OF \<open>addr < 127\<close> ex refl False this] pw1 False exst n(4)
      show ?thesis by (simp add: found_report_def)
    qed
    with n pw have "scan_run c d rb (addr # map of_nat [unat (addr + 1)..<127]) w w'"
      by auto
    then show ?thesis by (simp only: upt_byte [OF True])
  qed
qed


lemma begin_first_run:
  assumes nb: "\<not> beginCompleted w" and res: "I2C_begin c d rb w = Some w'"
  shows "\<exists>w8 w9 pre e.
           trace w8 = trace w @ pre @ [EvSetClock 100000, EvSetTimeout 1000] \<and>
           queued pre = [] \<and> probe_window w8 \<and>
           scan_run c d rb scan_addresses w8 w9 \<and>
           trace w' = trace w9 @ e @ [EvSetClock (clockSpeed w), EvSetTimeout (timeout w)] \<and>
           queued e = [] \<and> filter is_config e = []"
proof -
  let ?w7 = "begin_prologue d w"
  let ?w8 = "setTimeout 1000 ?w7"
  from res obtain x where "scan c d rb 1 False ?w8 = Some x"
    by (auto simp: I2C_begin_unfold [OF nb] split: option.splits)
  then obtain found w9 where sc: "scan c d rb 1 False ?w8 = Some (found, w9)"
    by (cases x) simp
  with res have w': "w' = begin_epilogue d (timeout w) found w9"
    by (simp add: I2C_begin_unfold [OF nb] begin_prologue_fields)
  from begin_prologue_trace [of d w] obtain pre where
    pre: "trace ?w7 = trace w @ pre @ [EvSetClock 100000]" "queued pre = []"
    by blast
  then have t8: "trace ?w8 = trace w @ pre @ [EvSetClock 100000, EvSetTimeout 1000]"
    by simp
  then have "bus_clock (trace ?w8) = Some 100000"
    by (simp add: bus_clock_def)
  then have pw: "probe_window ?w8" by (simp add: probe_window_def)
  from scan_run_holds [OF sc pw] have run: "scan_run c d rb scan_addresses ?w8 w9"
    unfolding scan_addresses_eq .
  from scan_post_holds [OF sc] have "clockSpeed w9 = clockSpeed w"
    by (simp add: scan_post_def begin_prologue_fields)
  with begin_epilogue_trace [of d "timeout w" found w9] obtain e where
    e: "trace w' = trace w9 @ e @ [EvSetClock (clockSpeed w), EvSetTimeout (timeout w)]"
    "list_all scan_only e" "queued e = []"
    unfolding w' by auto
  from scan_only_quiet [OF e(2)] have "filter is_config e = []" by simp
  with t8 pre(2) pw run e(1,3) show ?thesis by blast
qed

section \<open>The claims\<close>

text \<open>
  C1. The negotiated clock rate \<^verbatim>\<open>_clockSpeed\<close> never rises under \<^verbatim>\<open>setClock\<close>
  and is locked by \<^verbatim>\<open>forceClock\<close>. For every world \<open>w\<close> and rate \<open>r\<close>:
  \<^verbatim>\<open>setClock(r)\<close> stores \<open>r\<close> exactly when \<open>r\<close> is below the stored rate (unsigned
  32-bit comparison) and the rate is not fixed, and leaves the rate alone otherwise, so
  the rate after it, and after any sequence \<open>rs\<close> of such calls, is at most the rate
  before; it does not change the fixed flag. \<^verbatim>\<open>forceClock(r)\<close> stores \<open>r\<close> and sets
  the fixed flag, and any sequence of \<^verbatim>\<open>setClock\<close> calls after it leaves the rate at
  \<open>r\<close>. \<^verbatim>\<open>setClock(9000)\<close> after \<^verbatim>\<open>setClock(5000)\<close> changes nothing; the rate is
  then 5000 when the rate before both was above 5000 and not fixed. After
  \<^verbatim>\<open>forceClock(9000)\<close>, \<^verbatim>\<open>setClock(100)\<close> leaves the rate at 9000.
\<close>

theorem clock_rate_law:
  "clockSpeed (setClock d r w) =
     (if r < clockSpeed w \<and> \<not> clockSpeedFixed w then r else clockSpeed w) \<and>
   clockSpeed (setClock d r w) \<le> clockSpeed w \<and>
   clockSpeedFixed (setClock d r w) = clockSpeedFixed w \<and>
   clockSpeed (fold (setClock d) rs w) \<le> clockSpeed w \<and>
   clockSpeed (forceClock d r w) = r \<and>
   clockSpeedFixed (forceClock d r w) \<and>
   clockSpeed (fold (setClock d) rs (forceClock d r w)) = r \<and>
   clockSpeed (setClock d 9000 (setClock d 5000 w)) = clockSpeed (setClock d 5000 w) \<and>
   (5000 < clockSpeed w \<and> \<not> clockSpeedFixed w \<longrightarrow>
      clockSpeed (setClock d 9000 (setClock d 5000 w)) = 5000) \<and>
   clockSpeed (setClock d 100 (forceClock d 9000 w)) = 9000"
proof -
  have "clockSpeed (fold (setClock d) rs (forceClock d r w)) = r"
    using setClock_fold_fixed [of "forceClock d r w" d rs] by (simp add: forceClock_fields)
  moreover have "clockSpeed (setClock d 9000 (setClock d 5000 w)) = clockSpeed (setClock d 5000 w)"
    by (rule setClock_twice)
  moreover have "5000 < clockSpeed w \<and> \<not> clockSpeedFixed w \<longrightarrow>
      clockSpeed (setClock d 9000 (setClock d 5000 w)) = 5000"
    by (simp add: setClock_clockSpeed setClock_fixed)
  moreover have "clockSpeed (setClock d 100 (forceClock d 9000 w)) = 9000"
    by (simp add: setClock_clockSpeed forceClock_fields)
  ultimately show ?thesis
    using setClock_clockSpeed [of d r w] setClock_le [of d r w] setClock_fixed [of d r w]
      setClock_fold_le [of d rs w] forceClock_fields [of d r w]
    by blast
qed

theorem clock_rate_law_witness:
  "5000 < clockSpeed sample_world \<and> \<not> clockSpeedFixed sample_world \<and>
   clockSpeed (setClock sample_driver 9000 (setClock sample_driver 5000 sample_world)) = 5000 \<and>
   clockSpeed (setClock sample_driver 100 (forceClock sample_driver 9000 sample_world)) = 9000"
proof -
  have "5000 < clockSpeed sample_world \<and> \<not> clockSpeedFixed sample_world"
    by (simp add: sample_world_def)
  with clock_rate_law [of sample_driver 0 sample_world "[]"] show ?thesis
    by blast
qed

text \<open>
  C2, as the code has it. \<^verbatim>\<open>isBusy()\<close> returns true exactly when the status of the
  block is \<^verbatim>\<open>I2C_STATUS_PENDING\<close> when it is called. Then it calls \<^verbatim>\<open>loop()\<close>
  once before it returns, and does not look at the status again. When the block is not
  pending it returns false and calls nothing: the world is as before.
\<close>

theorem isBusy_polls_pending_block:
  "(fst (isBusy c d req w) \<longleftrightarrow> status (rb_at w req) = I2C_STATUS_PENDING c) \<and>
   snd (isBusy c d req w) =
     (if status (rb_at w req) = I2C_STATUS_PENDING c then loop d w else w) \<and>
   trace (snd (isBusy c d req w)) =
     trace w @ (if status (rb_at w req) = I2C_STATUS_PENDING c then [EvLoop] else [])"
  by (simp add: isBusy_def loop_def log_call_def)

text \<open>
  The claim as stated fails twice. On a block that is not pending (here: status
  \<^verbatim>\<open>I2C_STATUS_OK\<close>) \<^verbatim>\<open>isBusy()\<close> makes no call of \<^verbatim>\<open>loop()\<close> at all, whatever
  the driver. And on a pending block whose request the one call of \<^verbatim>\<open>loop()\<close> ends
  (here: the sample driver, which ends it with \<^verbatim>\<open>I2C_STATUS_NEGATIVE_ACKNOWLEDGE\<close>),
  \<^verbatim>\<open>isBusy()\<close> returns true although the block is no longer pending after the step.
\<close>

theorem isBusy_counterexample:
  "status (rb_at sample_world 16) = I2C_STATUS_OK sample_enums \<and>
   isBusy sample_enums sample_driver 16 sample_world = (False, sample_world) \<and>
   trace (snd (isBusy sample_enums sample_driver 16 sample_world)) = [] \<and>
   status (rb_at (queueRequest sample_driver 16 sample_world) 16)
     = I2C_STATUS_PENDING sample_enums \<and>
   fst (isBusy sample_enums sample_driver 16 (queueRequest sample_driver 16 sample_world)) \<and>
   status (rb_at (snd (isBusy sample_enums sample_driver 16
                        (queueRequest sample_driver 16 sample_world))) 16)
     = I2C_STATUS_NEGATIVE_ACKNOWLEDGE sample_enums"
  by (simp add: isBusy_def rb_at_def sample_world_def sample_enums_def blank_rb_def
      queueRequest_def loop_def log_call_def sample_driver_def fill_block_def nak_pending_def)

text \<open>
  C3. \<^verbatim>\<open>begin()\<close> initialises once. On a manager \<open>w\<close> that has not begun: when
  the first \<^verbatim>\<open>begin()\<close> returns a world \<open>w'\<close>, the events \<open>evs\<close> it has added to
  the trace hold one \<^verbatim>\<open>_initialise()\<close>, one read of each bus line (SDA, then SCL)
  and one probe of each address from 1 to 126, in order; these probes have run one
  after the other, each until its block had left \<^verbatim>\<open>I2C_STATUS_PENDING\<close>, from the
  world \<open>w8\<close> after the set-up to a world \<open>w9\<close>, after which only the clock and the
  timeout were set back; a further \<^verbatim>\<open>begin()\<close>
  returns \<open>w'\<close> unchanged, trace included, and so every sequence of one or more calls
  from \<open>w\<close> ends in \<open>w'\<close>. The first \<^verbatim>\<open>begin()\<close> does return with a driver under
  which every queued request completes. In any world where \<^verbatim>\<open>begin()\<close> has
  completed, any number of calls leaves the world as it is.
\<close>

theorem begin_once:
  assumes "\<not> beginCompleted w"
  shows "(\<forall>w'. I2C_begin c d rb w = Some w' \<longrightarrow>
            (\<exists>evs. trace w' = trace w @ evs \<and>
               filter (\<lambda>ev. ev = EvInitialise) evs = [EvInitialise] \<and>
               pins_read evs = [SDA, SCL] \<and>
               map fst (queued evs) = scan_addresses) \<and>
            (\<exists>w8 w9 pre e.
               trace w8 = trace w @ pre @ [EvSetClock 100000, EvSetTimeout 1000] \<and>
               queued pre = [] \<and> probe_window w8 \<and>
               scan_run c d rb scan_addresses w8 w9 \<and>
               trace w' = trace w9 @ e @
                            [EvSetClock (clockSpeed w), EvSetTimeout (timeout w)] \<and>
               queued e = [] \<and> filter is_config e = []) \<and>
            I2C_begin c d rb w' = Some w' \<and>
            (\<forall>n. begin_times c d rb (Suc n) w = Some w')) \<and>
         (completes_requests c d \<longrightarrow> (\<exists>w'. I2C_begin c d rb w = Some w')) \<and>
         (\<forall>v n. beginCompleted v \<longrightarrow>
            I2C_begin c d rb v = Some v \<and> begin_times c d rb n v = Some v)"
proof (intro conjI allI impI)
  fix w'
  assume r: "I2C_begin c d rb w = Some w'"
  from begin_first_post [OF assms r] have p: "begin_post c w w'" .
  then have bc: "beginCompleted w'" by (simp add: begin_post_def)
  from p obtain pre mid where
    t: "trace w' = trace w @ pre @ [EvSetClock 100000, EvSetTimeout 1000] @ mid @
          [EvSetClock (clockSpeed w), EvSetTimeout (timeout w)]"
    and pre: "filter (\<lambda>ev. ev = EvInitialise) pre = [EvInitialise]"
      "pins_read pre = [SDA, SCL]" "queued pre = []"
    and mid: "list_all scan_only mid" "queued mid = map (probe c) scan_addresses"
    unfolding begin_post_def by blast
  let ?evs = "pre @ [EvSetClock 100000, EvSetTimeout 1000] @ mid @
          [EvSetClock (clockSpeed w), EvSetTimeout (timeout w)]"
  note q = scan_only_quiet [OF mid(1)]
  have "trace w' = trace w @ ?evs" by (simp add: t)
  moreover have "filter (\<lambda>ev. ev = EvInitialise) ?evs = [EvInitialise]"
    by (simp add: pre(1) q)
  moreover have "pins_read ?evs = [SDA, SCL]"
    by (simp add: pins_read_append pre(2) q)
  moreover have "map fst (queued ?evs) = scan_addresses"
    by (simp add: queued_append pre(3) mid(2) queued_addresses)
  ultimately show "\<exists>evs. trace w' = trace w @ evs \<and>
               filter (\<lambda>ev. ev = EvInitialise) evs = [EvInitialise] \<and>
               pins_read evs = [SDA, SCL] \<and>
               map fst (queued evs) = scan_addresses"
    by blast
  show "\<exists>w8 w9 pre e.
               trace w8 = trace w @ pre @ [EvSetClock 100000, EvSetTimeout 1000] \<and>
               queued pre = [] \<and> probe_window w8 \<and>
               scan_run c d rb scan_addresses w8 w9 \<and>
               trace w' = trace w9 @ e @
                            [EvSetClock (clockSpeed w), EvSetTimeout (timeout w)] \<and>
               queued e = [] \<and> filter is_config e = []"
    by (rule begin_first_run [OF assms r])
  show "I2C_begin c d rb w' = Some w'"
    using bc by (rule I2C_begin_done)
  show "begin_times c d rb (Suc n) w = Some w'" for n
    by (simp add: r begin_times_done [OF bc])
next
  assume "completes_requests c d"
  then show "\<exists>w'. I2C_begin c d rb w = Some w'" by (rule begin_returns)
next
  fix v :: "'a world" and n
  assume "beginCompleted v"
  then show "I2C_begin c d rb v = Some v" "begin_times c d rb n v = Some v"
    by (simp_all add: I2C_begin_done begin_times_done)
qed

theorem begin_once_witness:
  "\<not> beginCompleted sample_world \<and> completes_requests sample_enums sample_driver \<and>
   (\<exists>w'. I2C_begin sample_enums sample_driver 16 sample_world = Some w' \<and>
         begin_times sample_enums sample_driver 16 2 sample_world = Some w' \<and>
         begin_times sample_enums sample_driver 16 3 sample_world = Some w' \<and>
         length (filter (\<lambda>ev. ev = EvInitialise) (trace w')) = 1)"
proof -
  have nb: "\<not> beginCompleted sample_world" by (simp add: sample_world_def)
  have t0: "trace sample_world = []" by (simp add: sample_world_def)
  note b = begin_once [OF nb, of sample_enums sample_driver 16]
  from b sample_completes obtain w' where
    r: "I2C_begin sample_enums sample_driver 16 sample_world = Some w'"
    by blast
  with b obtain evs where
    "trace w' = trace sample_world @ evs"
    "filter (\<lambda>ev. ev = EvInitialise) evs = [EvInitialise]"
    "\<forall>n. begin_times sample_enums sample_driver 16 (Suc n) sample_world = Some w'"
    by blast
  moreover from this have
    "begin_times sample_enums sample_driver 16 (Suc 1) sample_world = Some w'"
    "begin_times sample_enums sample_driver 16 (Suc 2) sample_world = Some w'"
    by blast+
  ultimately have "I2C_begin sample_enums sample_driver 16 sample_world = Some w' \<and>
         begin_times sample_enums sample_driver 16 2 sample_world = Some w' \<and>
         begin_times sample_enums sample_driver 16 3 sample_world = Some w' \<and>
         length (filter (\<lambda>ev. ev = EvInitialise) (trace w')) = 1"
    using r by (simp add: t0 numeral_2_eq_2 numeral_3_eq_3)
  with sample_completes nb show ?thesis by blast
qed



text \<open>
  C5. Whatever the block \<open>rb\<close> held before, \<^verbatim>\<open>setWriteParams\<close>,
  \<^verbatim>\<open>setReadParams\<close> and \<^verbatim>\<open>setRequestParams\<close> each set its status to
  \<^verbatim>\<open>I2C_STATUS_OK\<close>, its operation to \<^verbatim>\<open>OPERATION_SEND\<close>, \<^verbatim>\<open>OPERATION_READ\<close> and
  \<^verbatim>\<open>OPERATION_REQUEST\<close> respectively, and store the address, buffers and lengths
  given; \<^verbatim>\<open>setWriteParams\<close> sets the read length to 0 and \<^verbatim>\<open>setReadParams\<close> the
  write length to 0.
\<close>

theorem setters_fill_block:
  "status (setWriteParams c a wbuf wlen rb) = I2C_STATUS_OK c \<and>
   operation (setWriteParams c a wbuf wlen rb) = OPERATION_SEND c \<and>
   i2cAddress (setWriteParams c a wbuf wlen rb) = a \<and>
   writeBuffer (setWriteParams c a wbuf wlen rb) = wbuf \<and>
   writeLen (setWriteParams c a wbuf wlen rb) = wlen \<and>
   readLen (setWriteParams c a wbuf wlen rb) = 0 \<and>
   status (setReadParams c a rbuf rlen rb) = I2C_STATUS_OK c \<and>
   operation (setReadParams c a rbuf rlen rb) = OPERATION_READ c \<and>
   i2cAddress (setReadParams c a rbuf rlen rb) = a \<and>
   readBuffer (setReadParams c a rbuf rlen rb) = rbuf \<and>
   readLen (setReadParams c a rbuf rlen rb) = rlen \<and>
   writeLen (setReadParams c a rbuf rlen rb) = 0 \<and>
   status (setRequestParams c a rbuf rlen wbuf wlen rb) = I2C_STATUS_OK c \<and>
   operation (setRequestParams c a rbuf rlen wbuf wlen rb) = OPERATION_REQUEST c \<and>
   i2cAddress (setRequestParams c a rbuf rlen wbuf wlen rb) = a \<and>
   readBuffer (setRequestParams c a rbuf rlen wbuf wlen rb) = rbuf \<and>
   readLen (setRequestParams c a rbuf rlen wbuf wlen rb) = rlen \<and>
   writeBuffer (setRequestParams c a rbuf rlen wbuf wlen rb) = wbuf \<and>
   writeLen (setRequestParams c a rbuf rlen wbuf wlen rb) = wlen"
  by (simp add: setWriteParams_def setReadParams_def setRequestParams_def)

text \<open>
  C6, as the code has it. \<^verbatim>\<open>suppressRetries(b)\<close> changes the operation byte only,
  and of it only the bits of \<^verbatim>\<open>OPERATION_NORETRY\<close>, which it sets when \<open>b\<close> is true
  and clears when \<open>b\<close> is false; status, address, buffers and lengths stay.
  \<^verbatim>\<open>suppressRetries(true)\<close> and then \<^verbatim>\<open>suppressRetries(false)\<close> leave the operation
  byte with the no-retry bits cleared: that is the byte from before exactly when its
  no-retry bits were clear.
\<close>

theorem suppressRetries_sets_flag_only:
  "status (suppressRetries c b rb) = status rb \<and>
   i2cAddress (suppressRetries c b rb) = i2cAddress rb \<and>
   writeBuffer (suppressRetries c b rb) = writeBuffer rb \<and>
   writeLen (suppressRetries c b rb) = writeLen rb \<and>
   readBuffer (suppressRetries c b rb) = readBuffer rb \<and>
   readLen (suppressRetries c b rb) = readLen rb \<and>
   operation (suppressRetries c b rb) AND NOT (OPERATION_NORETRY c) =
     operation rb AND NOT (OPERATION_NORETRY c) \<and>
   operation (suppressRetries c b rb) AND OPERATION_NORETRY c =
     (if b then OPERATION_NORETRY c else 0) \<and>
   suppressRetries c False (suppressRetries c True rb) =
     rb\<lparr>operation := operation rb AND NOT (OPERATION_NORETRY c)\<rparr> \<and>
   (suppressRetries c False (suppressRetries c True rb) = rb \<longleftrightarrow>
      operation rb AND OPERATION_NORETRY c = 0)"
  using suppressRetries_frame [of c b rb] suppressRetries_other_bits [of c b rb]
    suppressRetries_flag [of c b rb] suppressRetries_on_off [of c rb]
    suppressRetries_on_off_id [of c rb]
  by blast

text \<open>
  The last sentence of the claim as stated fails on a block whose no-retry flag is
  set already: with the flag at bit 7, the operation byte 131 (kind 3 with the flag)
  comes back as 3.
\<close>

theorem suppressRetries_counterexample:
  "operation (suppressRetries sample_enums False
      (suppressRetries sample_enums True (blank_rb\<lparr>operation := 131\<rparr>))) = 3 \<and>
   suppressRetries sample_enums False
      (suppressRetries sample_enums True (blank_rb\<lparr>operation := 131\<rparr>))
     \<noteq> blank_rb\<lparr>operation := 131\<rparr>"
  by (simp add: suppressRetries_def sample_enums_def blank_rb_def)

text \<open>
  C7. \<^verbatim>\<open>checkAddress(address)\<close> fills its local block \<open>rb\<close> in as \<open>probe_block\<close>:
  \<^verbatim>\<open>setWriteParams(address, NULL, 0)\<close> and then \<^verbatim>\<open>suppressRetries(true)\<close>, that is the
  given address, a null write buffer, write length 0, status \<^verbatim>\<open>I2C_STATUS_OK\<close>, the
  no-retry flag set, and the kind \<^verbatim>\<open>OPERATION_SEND\<close> in the other bits (where the
  flag is not a bit of that kind). It hands the block to \<^verbatim>\<open>queueRequest\<close> and is the
  \<^verbatim>\<open>wait()\<close> on it from there. When it returns, what it returns is the status of
  the block, which is not \<^verbatim>\<open>I2C_STATUS_PENDING\<close>, and the trace has grown by that one
  request and calls of \<^verbatim>\<open>loop()\<close>. It returns with a driver under which every queued
  request completes.
\<close>

theorem checkAddress_probe:
  "checkAddress c d rb a w =
     wait c d rb (queueRequest d rb (rb_update rb (probe_block c a) w)) \<and>
   probe_block c a blk = suppressRetries c True (setWriteParams c a NULL 0 blk) \<and>
   i2cAddress (probe_block c a blk) = a \<and>
   writeBuffer (probe_block c a blk) = NULL \<and>
   writeLen (probe_block c a blk) = 0 \<and>
   status (probe_block c a blk) = I2C_STATUS_OK c \<and>
   operation (probe_block c a blk) AND OPERATION_NORETRY c = OPERATION_NORETRY c \<and>
   (OPERATION_SEND c AND OPERATION_NORETRY c = 0 \<longrightarrow>
      operation (probe_block c a blk) AND NOT (OPERATION_NORETRY c) = OPERATION_SEND c) \<and>
   (\<forall>r. checkAddress c d rb a w = Some r \<longrightarrow> probe_post c rb a w r) \<and>
   (completes_requests c d \<longrightarrow> (\<exists>r. checkAddress c d rb a w = Some r))"
proof -
  have "i2cAddress (probe_block c a blk) = a \<and>
   writeBuffer (probe_block c a blk) = NULL \<and>
   writeLen (probe_block c a blk) = 0 \<and>
   status (probe_block c a blk) = I2C_STATUS_OK c"
    by (simp add: probe_block_def)
  then show ?thesis
    using checkAddress_eq [of c d rb a w] probe_block_eq [of c a blk, symmetric]
      probe_block_noretry [of c a blk] probe_block_kind [of c a blk]
      checkAddress_result [of c d rb a w] checkAddress_returns [of c d rb a w]
    by blast
qed

theorem checkAddress_probe_witness:
  "completes_requests sample_enums sample_driver \<and>
   OPERATION_SEND sample_enums AND OPERATION_NORETRY sample_enums = 0 \<and>
   operation (probe_block sample_enums 80 blank_rb) AND NOT 128 = 3 \<and>
   (\<exists>r. checkAddress sample_enums sample_driver 1 80 sample_world = Some r \<and>
        probe_post sample_enums 1 80 sample_world r)"
proof -
  have k: "OPERATION_SEND sample_enums AND OPERATION_NORETRY sample_enums = 0"
    by (simp add: sample_enums_def)
  have e: "OPERATION_SEND sample_enums = 3" "OPERATION_NORETRY sample_enums = 128"
    by (simp_all add: sample_enums_def)
  from checkAddress_probe [of sample_enums sample_driver 1 80 sample_world blank_rb]
    sample_completes k
  have "operation (probe_block sample_enums 80 blank_rb) AND NOT (OPERATION_NORETRY sample_enums)
          = OPERATION_SEND sample_enums"
    and "\<exists>r. checkAddress sample_enums sample_driver 1 80 sample_world = Some r \<and>
        probe_post sample_enums 1 80 sample_world r"
    by blast+
  with sample_completes k e show ?thesis by simp
qed

text \<open>
  C8. The blocking \<^verbatim>\<open>write\<close>, \<^verbatim>\<open>write_P\<close> and \<^verbatim>\<open>read\<close> submit their local block
  at \<open>req\<close> through the non-blocking overload and finish with \<^verbatim>\<open>finishRB\<close>. When
  the submission returns \<^verbatim>\<open>I2C_STATUS_OK\<close> the call is the \<^verbatim>\<open>wait()\<close> on the
  block, and what it returns, when it returns, is the status of the block, which is
  not \<^verbatim>\<open>I2C_STATUS_PENDING\<close>. When the submission returns another code the call
  returns that code and the world as the submission left it. With a driver under
  which accepted requests complete, each call returns. With a driver whose rejected
  submissions leave the block not pending, a rejected call returns the code of the
  rejection, the block is not pending, and the trace has grown by the submission
  alone: no call of \<^verbatim>\<open>loop()\<close>. The overloads that take the bytes as variable
  arguments copy them to a local array, which touches neither the trace nor the
  request blocks, and are then the blocking \<^verbatim>\<open>write\<close> and \<^verbatim>\<open>read\<close> on that array,
  provided the caller passed as many arguments as the count says.
\<close>

theorem blocking_calls:
  assumes "req \<noteq> NULL"
  shows "blocking_result c d req (write_req d a wbuf wlen req w)
           (I2C_write c d req a wbuf wlen w) \<and>
         blocking_result c d req (write_P_req d a wbuf wlen req w)
           (I2C_write_P c d req a wbuf wlen w) \<and>
         blocking_result c d req (read_req d a rbuf rlen wbuf wlen req w)
           (I2C_read c d req a rbuf rlen wbuf wlen w) \<and>
         (completes_requests c d \<longrightarrow>
            (\<exists>r. I2C_write c d req a wbuf wlen w = Some r) \<and>
            (\<exists>r. I2C_write_P c d req a wbuf wlen w = Some r) \<and>
            (\<exists>r. I2C_read c d req a rbuf rlen wbuf wlen w = Some r)) \<and>
         (rejects_synchronously c d \<longrightarrow>
            (fst (write_req d a wbuf wlen req w) \<noteq> I2C_STATUS_OK c \<longrightarrow>
               (\<exists>w'. I2C_write c d req a wbuf wlen w =
                       Some (fst (write_req d a wbuf wlen req w), w') \<and>
                     status (rb_at w' req) \<noteq> I2C_STATUS_PENDING c \<and>
                     trace w' = trace w @ [EvWrite a wbuf wlen req])) \<and>
            (fst (write_P_req d a wbuf wlen req w) \<noteq> I2C_STATUS_OK c \<longrightarrow>
               (\<exists>w'. I2C_write_P c d req a wbuf wlen w =
                       Some (fst (write_P_req d a wbuf wlen req w), w') \<and>
                     status (rb_at w' req) \<noteq> I2C_STATUS_PENDING c \<and>
                     trace w' = trace w @ [EvWrite_P a wbuf wlen req])) \<and>
            (fst (read_req d a rbuf rlen wbuf wlen req w) \<noteq> I2C_STATUS_OK c \<longrightarrow>
               (\<exists>w'. I2C_read c d req a rbuf rlen wbuf wlen w =
                       Some (fst (read_req d a rbuf rlen wbuf wlen req w), w') \<and>
                     status (rb_at w' req) \<noteq> I2C_STATUS_PENDING c \<and>
                     trace w' = trace w @ [EvRead a rbuf rlen wbuf wlen req]))) \<and>
         (unat n \<le> length args \<longrightarrow>
            (\<exists>w1. va_copy buffer n 0 args w = Some w1 \<and> trace w1 = trace w \<and>
                  heap (store w1) = heap (store w) \<and>
                  I2C_write_va c d req buffer a n args w = I2C_write c d req a buffer n w1 \<and>
                  I2C_read_va c d req buffer a rbuf rlen n args w =
                    I2C_read c d req a rbuf rlen buffer n w1))"
proof -
  note wr = I2C_write_result [OF assms, of c d a wbuf wlen w]
  note wp = I2C_write_P_result [OF assms, of c d a wbuf wlen w]
  note rd = I2C_read_result [OF assms, of c d a rbuf rlen wbuf wlen w]
  have ret: "completes_requests c d \<longrightarrow>
            (\<exists>r. I2C_write c d req a wbuf wlen w = Some r) \<and>
            (\<exists>r. I2C_write_P c d req a wbuf wlen w = Some r) \<and>
            (\<exists>r. I2C_read c d req a rbuf rlen wbuf wlen w = Some r)"
    using blocking_returns(1) [of c d req a wbuf wlen w]
      blocking_returns(2) [of c d req a wbuf wlen w]
      blocking_returns(3) [of c d req a rbuf rlen wbuf wlen w]
    by blast
  have rej: "rejects_synchronously c d \<longrightarrow>
            (fst (write_req d a wbuf wlen req w) \<noteq> I2C_STATUS_OK c \<longrightarrow>
               (\<exists>w'. I2C_write c d req a wbuf wlen w =
                       Some (fst (write_req d a wbuf wlen req w), w') \<and>
                     status (rb_at w' req) \<noteq> I2C_STATUS_PENDING c \<and>
                     trace w' = trace w @ [EvWrite a wbuf wlen req])) \<and>
            (fst (write_P_req d a wbuf wlen req w) \<noteq> I2C_STATUS_OK c \<longrightarrow>
               (\<exists>w'. I2C_write_P c d req a wbuf wlen w =
                       Some (fst (write_P_req d a wbuf wlen req w), w') \<and>
                     status (rb_at w' req) \<noteq> I2C_STATUS_PENDING c \<and>
                     trace w' = trace w @ [EvWrite_P a wbuf wlen req])) \<and>
            (fst (read_req d a rbuf rlen wbuf wlen req w) \<noteq> I2C_STATUS_OK c \<longrightarrow>
               (\<exists>w'. I2C_read c d req a rbuf rlen wbuf wlen w =
                       Some (fst (read_req d a rbuf rlen wbuf wlen req w), w') \<and>
                     status (rb_at w' req) \<noteq> I2C_STATUS_PENDING c \<and>
                     trace w' = trace w @ [EvRead a rbuf rlen wbuf wlen req]))"
  proof (intro impI conjI)
    assume rs: "rejects_synchronously c d"
    {
      assume n: "fst (write_req d a wbuf wlen req w) \<noteq> I2C_STATUS_OK c"
      from blocking_result_rejected [OF wr n]
      have "I2C_write c d req a wbuf wlen w =
              Some (fst (write_req d a wbuf wlen req w), snd (write_req d a wbuf wlen req w))"
        by simp
      moreover from rs n
      have "status (rb_at (snd (write_req d a wbuf wlen req w)) req) \<noteq> I2C_STATUS_PENDING c"
        by (simp add: rejects_synchronously_def)
      ultimately show "\<exists>w'. I2C_write c d req a wbuf wlen w =
                       Some (fst (write_req d a wbuf wlen req w), w') \<and>
                     status (rb_at w' req) \<noteq> I2C_STATUS_PENDING c \<and>
                     trace w' = trace w @ [EvWrite a wbuf wlen req]"
        using submission_trace(1) [of d a wbuf wlen req w] by blast
    }
    {
      assume n: "fst (write_P_req d a wbuf wlen req w) \<noteq> I2C_STATUS_OK c"
      from blocking_result_rejected [OF wp n]
      have "I2C_write_P c d req a wbuf wlen w =
              Some (fst (write_P_req d a wbuf wlen req w), snd (write_P_req d a wbuf wlen req w))"
        by simp
      moreover from rs n
      have "status (rb_at (snd (write_P_req d a wbuf wlen req w)) req) \<noteq> I2C_STATUS_PENDING c"
        by (simp add: rejects_synchronously_def)
      ultimately show "\<exists>w'. I2C_write_P c d req a wbuf wlen w =
                       Some (fst (write_P_req d a wbuf wlen req w), w') \<and>
                     status (rb_at w' req) \<noteq> I2C_STATUS_PENDING c \<and>
                     trace w' = trace w @ [EvWrite_P a wbuf wlen req]"
        using submission_trace(2) [of d a wbuf wlen req w] by blast
    }
    {
      assume n: "fst (read_req d a rbuf rlen wbuf wlen req w) \<noteq> I2C_STATUS_OK c"
      from blocking_result_rejected [OF rd n]
      have "I2C_read c d req a rbuf rlen wbuf wlen w =
              Some (fst (read_req d a rbuf rlen wbuf wlen req w),
                    snd (read_req d a rbuf rlen wbuf wlen req w))"
        by simp
      moreover from rs n
      have "status (rb_at (snd (read_req d a rbuf rlen wbuf wlen req w)) req)
              \<noteq> I2C_STATUS_PENDING c"
        by (simp add: rejects_synchronously_def)
      ultimately show "\<exists>w'. I2C_read c d req a rbuf rlen wbuf wlen w =
                       Some (fst (read_req d a rbuf rlen wbuf wlen req w), w') \<and>
                     status (rb_at w' req) \<noteq> I2C_STATUS_PENDING c \<and>
                     trace w' = trace w @ [EvRead a rbuf rlen wbuf wlen req]"
        using submission_trace(3) [of d a rbuf rlen wbuf wlen req w] by blast
    }
  qed
  have va: "unat n \<le> length args \<longrightarrow>
            (\<exists>w1. va_copy buffer n 0 args w = Some w1 \<and> trace w1 = trace w \<and>
                  heap (store w1) = heap (store w) \<and>
                  I2C_write_va c d req buffer a n args w = I2C_write c d req a buffer n w1 \<and>
                  I2C_read_va c d req buffer a rbuf rlen n args w =
                    I2C_read c d req a rbuf rlen buffer n w1)"
  proof
    assume "unat n \<le> length args"
    then have "unat n - unat (0 :: uint8_t) \<le> length args" by simp
    from va_copy_returns [OF this, of buffer w] obtain w1 where
      w1: "va_copy buffer n 0 args w = Some w1" "trace w1 = trace w"
      "heap (store w1) = heap (store w)"
      by blast
    then show "\<exists>w1. va_copy buffer n 0 args w = Some w1 \<and> trace w1 = trace w \<and>
                  heap (store w1) = heap (store w) \<and>
                  I2C_write_va c d req buffer a n args w = I2C_write c d req a buffer n w1 \<and>
                  I2C_read_va c d req buffer a rbuf rlen n args w =
                    I2C_read c d req a rbuf rlen buffer n w1"
      by (simp add: I2C_write_va_def I2C_read_va_def)
  qed
  from wr wp rd ret rej va show ?thesis by blast
qed

theorem blocking_calls_witness:
  "(16 :: ptr) \<noteq> NULL \<and> completes_requests sample_enums sample_driver \<and>
   rejects_synchronously sample_enums sample_driver \<and>
   fst (write_req sample_driver 32 0 0 16 sample_world) = I2C_STATUS_OK sample_enums \<and>
   (\<exists>r. I2C_write sample_enums sample_driver 16 32 0 0 sample_world = Some r \<and>
        fst r = status (rb_at (snd r) 16) \<and> fst r \<noteq> I2C_STATUS_PENDING sample_enums) \<and>
   fst (write_req sample_driver 200 0 0 16 sample_world)
     = I2C_STATUS_UNEXPECTED_ERROR sample_enums \<and>
   (\<exists>w'. I2C_write sample_enums sample_driver 16 200 0 0 sample_world =
           Some (I2C_STATUS_UNEXPECTED_ERROR sample_enums, w') \<and>
         status (rb_at w' 16) \<noteq> I2C_STATUS_PENDING sample_enums \<and>
         trace w' = [EvWrite 200 0 0 16]) \<and>
   unat (2 :: uint8_t) \<le> length [17, 34 :: int] \<and>
   (\<exists>w1. va_copy 64 2 0 [17, 34] sample_world = Some w1 \<and>
      I2C_write_va sample_enums sample_driver 16 64 32 2 [17, 34] sample_world =
        I2C_write sample_enums sample_driver 16 32 64 2 w1)"
proof -
  have n: "(16 :: ptr) \<noteq> NULL" by (simp add: NULL_def)
  have ok: "fst (write_req sample_driver 32 0 0 16 sample_world) = I2C_STATUS_OK sample_enums"
    by (simp add: sample_write_accepted sample_enums_def)
  have rej: "fst (write_req sample_driver 200 0 0 16 sample_world) =
      I2C_STATUS_UNEXPECTED_ERROR sample_enums"
    "fst (write_req sample_driver 200 0 0 16 sample_world) \<noteq> I2C_STATUS_OK sample_enums"
    by (simp_all add: sample_write_rejected sample_enums_def)
  have t0: "trace sample_world = []" by (simp add: sample_world_def)
  have len: "unat (2 :: uint8_t) \<le> length [17, 34 :: int]" by simp
  note b = blocking_calls [OF n, of sample_enums sample_driver]
  from b [of 32 0 0 sample_world 0 0 2 "[17, 34]" 64] sample_completes
  obtain r where r: "I2C_write sample_enums sample_driver 16 32 0 0 sample_world = Some r"
    by blast
  from b [of 32 0 0 sample_world 0 0 2 "[17, 34]" 64]
  have "blocking_result sample_enums sample_driver 16
          (write_req sample_driver 32 0 0 16 sample_world)
          (I2C_write sample_enums sample_driver 16 32 0 0 sample_world)"
    by blast
  with ok r have "wait_post sample_enums 16 (snd (write_req sample_driver 32 0 0 16 sample_world)) r"
    unfolding blocking_result_def by metis
  with r have 1: "\<exists>r. I2C_write sample_enums sample_driver 16 32 0 0 sample_world = Some r \<and>
        fst r = status (rb_at (snd r) 16) \<and> fst r \<noteq> I2C_STATUS_PENDING sample_enums"
    by (auto simp: wait_post_def)
  from b [of 200 0 0 sample_world 0 0 2 "[17, 34]" 64] sample_rejects rej(2)
  have "\<exists>w'. I2C_write sample_enums sample_driver 16 200 0 0 sample_world =
           Some (fst (write_req sample_driver 200 0 0 16 sample_world), w') \<and>
         status (rb_at w' 16) \<noteq> I2C_STATUS_PENDING sample_enums \<and>
         trace w' = trace sample_world @ [EvWrite 200 0 0 16]"
    by blast
  then have 2: "\<exists>w'. I2C_write sample_enums sample_driver 16 200 0 0 sample_world =
           Some (I2C_STATUS_UNEXPECTED_ERROR sample_enums, w') \<and>
         status (rb_at w' 16) \<noteq> I2C_STATUS_PENDING sample_enums \<and>
         trace w' = [EvWrite 200 0 0 16]"
    by (simp add: rej(1) t0)
  from b [of 32 0 0 sample_world 0 0 2 "[17, 34]" 64] len
  have 3: "\<exists>w1. va_copy 64 2 0 [17, 34] sample_world = Some w1 \<and>
      I2C_write_va sample_enums sample_driver 16 64 32 2 [17, 34] sample_world =
        I2C_write sample_enums sample_driver 16 32 64 2 w1"
    by blast
  from n sample_completes sample_rejects ok 1 rej(1) 2 len 3 show ?thesis by blast
qed

text \<open>
  C9. \<^verbatim>\<open>getErrorMessage\<close> is a function of the status byte alone. The ten status
  codes that \<^verbatim>\<open>I2CManager.cpp\<close> names, being distinct, map in order to the ten
  messages of \<open>status_messages\<close>; the ten messages are distinct from one another and
  from the message of the \<^verbatim>\<open>default\<close> case, which every other byte maps to.
\<close>

theorem getErrorMessage_table:
  assumes "distinct (status_codes c)"
  shows "map (getErrorMessage c) (status_codes c) = status_messages \<and>
         distinct status_messages \<and>
         ''Error code not recognised'' \<notin> set status_messages \<and>
         (\<forall>st. st \<notin> set (status_codes c) \<longrightarrow>
            getErrorMessage c st = ''Error code not recognised'')"
  using getErrorMessage_known [OF assms] status_messages_distinct
    getErrorMessage_default [of _ c]
  by blast

theorem getErrorMessage_table_witness:
  "distinct (status_codes sample_enums) \<and>
   map (getErrorMessage sample_enums) (status_codes sample_enums) = status_messages \<and>
   9 \<notin> set (status_codes sample_enums) \<and>
   getErrorMessage sample_enums 9 = ''Error code not recognised''"
proof -
  have d: "distinct (status_codes sample_enums)"
    by (simp add: status_codes_def sample_enums_def)
  have n: "9 \<notin> set (status_codes sample_enums)"
    by (simp add: status_codes_def sample_enums_def)
  from getErrorMessage_table [OF d] d n show ?thesis by blast
qed

text \<open>
  C10. Each of \<^verbatim>\<open>setWriteParams\<close>, \<^verbatim>\<open>setReadParams\<close> and \<^verbatim>\<open>setRequestParams\<close>
  assigns the operation byte whole: on any block it leaves the byte equal to the
  bare kind. Called on a block on which
  \<^verbatim>\<open>suppressRetries(true)\<close> was called before, it leaves the byte equal to the bare
  kind, with the no-retry flag clear (the flag is not a bit of any kind). In the order
  that \<^verbatim>\<open>checkAddress\<close> uses, \<^verbatim>\<open>suppressRetries(true)\<close> after
  \<^verbatim>\<open>setWriteParams\<close>, the flag is set and the other bits are the kind.
\<close>

theorem setters_discard_noretry:
  assumes "kinds_clear_of_noretry c"
  shows "operation (setWriteParams c a wbuf wlen rb) = OPERATION_SEND c \<and>
         operation (setReadParams c a rbuf rlen rb) = OPERATION_READ c \<and>
         operation (setRequestParams c a rbuf rlen wbuf wlen rb) = OPERATION_REQUEST c \<and>
         operation (setWriteParams c a wbuf wlen (suppressRetries c True rb)) = OPERATION_SEND c \<and>
         operation (setReadParams c a rbuf rlen (suppressRetries c True rb)) = OPERATION_READ c \<and>
         operation (setRequestParams c a rbuf rlen wbuf wlen (suppressRetries c True rb))
           = OPERATION_REQUEST c \<and>
         operation (setWriteParams c a wbuf wlen (suppressRetries c True rb))
           AND OPERATION_NORETRY c = 0 \<and>
         operation (setReadParams c a rbuf rlen (suppressRetries c True rb))
           AND OPERATION_NORETRY c = 0 \<and>
         operation (setRequestParams c a rbuf rlen wbuf wlen (suppressRetries c True rb))
           AND OPERATION_NORETRY c = 0 \<and>
         operation (suppressRetries c True (setWriteParams c a wbuf wlen rb))
           AND OPERATION_NORETRY c = OPERATION_NORETRY c \<and>
         operation (suppressRetries c True (setWriteParams c a wbuf wlen rb))
           AND NOT (OPERATION_NORETRY c) = OPERATION_SEND c"
  using assms
  by (simp add: kinds_clear_of_noretry_def setWriteParams_def setReadParams_def
      setRequestParams_def suppressRetries_def or_and_same or_and_not and_not_id_iff)

theorem setters_discard_noretry_witness:
  "kinds_clear_of_noretry sample_enums \<and>
   operation (setWriteParams sample_enums 32 0 0 (suppressRetries sample_enums True blank_rb)) = 3 \<and>
   operation (suppressRetries sample_enums True (setWriteParams sample_enums 32 0 0 blank_rb))
     AND 128 = 128"
proof -
  have k: "kinds_clear_of_noretry sample_enums"
    by (simp add: kinds_clear_of_noretry_def sample_enums_def)
  from setters_discard_noretry [OF k, of 32 0 0 blank_rb 0 0] k show ?thesis
    by (simp add: sample_enums_def)
qed

end
